theory Spec2Isabelle
  imports Complex_Main "HOL-Library.Signed_Division"
begin

section \<open>Data model\<close>

text \<open>
  The interpreter has one error channel, \<open>RuntimeError\<close> with a message. \<open>OutOfFuel\<close> is
  the outcome of a computation that has not returned: the evaluator below counts its
  recursion depth down, and \<open>list?\<close> does not return on a cyclic chain.
\<close>

datatype error = RuntimeError string | OutOfFuel

text \<open>Syntax trees as the reader delivers them (syntax.hpp: the subclasses of SyntaxBase).\<close>

datatype Syntax =
    Number int
  | RationalSyntax int int
  | TrueSyntax
  | FalseSyntax
  | SymbolSyntax string
  | StringSyntax string
  | List "Syntax list"

text \<open>
  The enumeration that the two process-wide tables map names to. Only the enumerators
  that parser.cpp tests are listed; \<open>E_OTHER\<close> stands for every further one.
\<close>

datatype ExprType =
    E_PLUS | E_MINUS | E_MUL | E_DIV | E_MODULO | E_EXPT
  | E_LT | E_LE | E_EQ | E_GE | E_GT
  | E_CONS | E_CAR | E_CDR | E_LIST | E_SETCAR | E_SETCDR
  | E_NOT | E_AND | E_OR
  | E_EQQ | E_BOOLQ | E_INTQ | E_NULLQ | E_PAIRQ | E_PROCQ | E_SYMBOLQ | E_LISTQ | E_STRINGQ
  | E_VOID | E_EXIT | E_DISPLAY
  | E_BEGIN | E_QUOTE | E_IF | E_COND | E_LAMBDA | E_DEFINE | E_LET | E_LETREC | E_SET
  | E_OTHER

text \<open>
  Expression nodes. The classes derived from Unary, Binary and Variadic share the
  \<open>eval\<close> of their base class and differ in \<open>evalRator\<close>, so they are one constructor
  each with the operator as a tag. AndVar and OrVar override \<open>eval\<close> and are nodes of
  their own. Names that HOL already uses carry a suffix.
\<close>

datatype unary_op =
    IsList | Car | Cdr | IsBoolean | IsFixnum | IsNull | IsPair | IsProcedure
  | IsSymbol | IsString | Not_op | Display

datatype binary_op =
    Plus_op | Minus | Mult | Div | Modulo | Expt
  | Less | LessEq | Equal | GreaterEq | Greater
  | Cons_op | SetCar | SetCdr | IsEq

datatype variadic_op =
    PlusVar | MinusVar | MultVar | DivVar
  | LessVar | LessEqVar | EqualVar | GreaterEqVar | GreaterVar
  | ListFunc

datatype Expr =
    Fixnum int
  | RationalNum int int
  | StringExpr string
  | True_e
  | False_e
  | MakeVoid
  | Exit
  | Var string
  | Unary unary_op Expr
  | Binary binary_op Expr Expr
  | Variadic variadic_op "Expr list"
  | AndVar "Expr list"
  | OrVar "Expr list"
  | Quote Syntax
  | Begin "Expr list"
  | If_e Expr Expr Expr
  | Cond "Expr list list"
  | Lambda "string list" Expr
  | Apply Expr "Expr list"
  | Define string Expr
  | Let_e "(string \<times> Expr) list" Expr
  | Letrec "(string \<times> Expr) list" Expr
  | Set_e string Expr

text \<open>
  A \<open>Value\<close> is a shared pointer to a heap object; two values are the same object iff
  their addresses are equal. Objects are never moved, and the model never frees one.
\<close>

type_synonym addr = nat

text \<open>
  Modelled from the spec: the environment type Assoc (value.hpp, absent). Following the
  spec (section 3 and the design note on environments), an environment is an immutable
  chain of (name, cell) links, innermost first, and a cell is a mutable slot holding a
  value or the null pointer.
\<close>

type_synonym Assoc = "(string \<times> nat) list"

text \<open>
  Modelled from the spec: the value classes and their builders IntegerV, RationalV and so
  on (value.hpp and value.cpp, absent). The spec lists the variants with their fields; a
  builder makes the object with the fields it is given.
\<close>

datatype ValueBase =
    IntegerV int
  | RationalV int int
  | BooleanV bool
  | StringV string
  | SymbolV string
  | NullV
  | VoidV
  | TerminateV
  | PairV addr addr
  | ProcedureV "string list" Expr Assoc

record state =
  heap :: "ValueBase list"
  cells :: "addr option list"

definition new_value :: "ValueBase \<Rightarrow> state \<Rightarrow> addr \<times> state" where
  "new_value ob s = (length (heap s), s\<lparr>heap := heap s @ [ob]\<rparr>)"

text \<open>
  Modelled from the spec: find, extend and modify (value.cpp, absent). \<open>find\<close> returns
  the content of the innermost cell of the name, or the null pointer when the name is
  absent; \<open>extend\<close> allocates a new cell and a new head link and leaves the old
  environment as it is; \<open>modify\<close> writes through the innermost cell of the name, so
  every environment sharing the link sees it.
\<close>

definition find :: "string \<Rightarrow> Assoc \<Rightarrow> state \<Rightarrow> addr option" where
  "find x env s = (case map_of env x of None \<Rightarrow> None | Some c \<Rightarrow> cells s ! c)"

definition extend :: "string \<Rightarrow> addr option \<Rightarrow> Assoc \<Rightarrow> state \<Rightarrow> Assoc \<times> state" where
  "extend x v env s = ((x, length (cells s)) # env, s\<lparr>cells := cells s @ [v]\<rparr>)"

definition modify :: "string \<Rightarrow> addr option \<Rightarrow> Assoc \<Rightarrow> state \<Rightarrow> state" where
  "modify x v env s =
     (case map_of env x of None \<Rightarrow> s | Some c \<Rightarrow> s\<lparr>cells := (cells s)[c := v]\<rparr>)"

section \<open>Value algebra\<close>

text \<open>
  The C++ type \<open>int\<close> has 32 bits, and the source checks for overflow only in \<open>expt\<close>.
  Where a result does not fit, the language leaves it undefined; the model gives it the
  value that two's complement arithmetic leaves, the result reduced modulo \<open>2^32\<close> into
  the range of \<open>int\<close>: that is \<open>wrap\<close>. \<open>int_add\<close>, \<open>int_sub\<close>, \<open>int_mul\<close>,
  \<open>int_neg\<close>, \<open>int_div\<close> and \<open>int_mod\<close> are the operators \<open>+\<close>, \<open>-\<close>, \<open>*\<close>, unary
  \<open>-\<close>, \<open>/\<close> and \<open>%\<close> on \<open>int\<close>, the last two truncating. The theorems on
  arithmetic take operands for which every intermediate result fits, so they do not depend
  on the reading of overflow; the instances that show an overflow do. \<open>long long\<close>, used
  in \<open>expt\<close> alone, is modelled by \<open>int\<close> as it is.
\<close>

definition wrap :: "int \<Rightarrow> int" where
  "wrap x = (x + 2147483648) mod 4294967296 - 2147483648"

definition int_add :: "int \<Rightarrow> int \<Rightarrow> int" where
  "int_add a b = wrap (a + b)"

definition int_sub :: "int \<Rightarrow> int \<Rightarrow> int" where
  "int_sub a b = wrap (a - b)"

definition int_mul :: "int \<Rightarrow> int \<Rightarrow> int" where
  "int_mul a b = wrap (a * b)"

definition int_neg :: "int \<Rightarrow> int" where
  "int_neg a = wrap (- a)"

definition int_div :: "int \<Rightarrow> int \<Rightarrow> int" where
  "int_div a b = wrap (a sdiv b)"

definition int_mod :: "int \<Rightarrow> int \<Rightarrow> int" where
  "int_mod a b = wrap (a smod b)"

text \<open>
  Modelled from the spec: \<open>gcd\<close> is declared extern and defined in expr.cpp, which is
  absent. The spec takes the gcd of two zeros to be zero and uses it to reduce a fraction
  to lowest terms: the greatest common divisor, which is not negative.
\<close>

definition gcd_c :: "int \<Rightarrow> int \<Rightarrow> int" where
  "gcd_c a b = gcd a b"

definition INT_MAX :: int where
  "INT_MAX = 2147483647"

definition INT_MIN :: int where
  "INT_MIN = - 2147483648"

text \<open>
  Every rational branch of the four arithmetic helpers ends in the same block: divide by
  the gcd unless it is zero, move the sign to the numerator, and return an Integer when
  the denominator is 1.
\<close>

definition reduce :: "int \<Rightarrow> int \<Rightarrow> ValueBase" where
  "reduce num den =
     (let g = gcd_c num den;
          num1 = (if g \<noteq> 0 then int_div num g else num);
          den1 = (if g \<noteq> 0 then int_div den g else den);
          num2 = (if den1 < 0 then int_neg num1 else num1);
          den2 = (if den1 < 0 then int_neg den1 else den1)
      in if den2 = 1 then IntegerV num2 else RationalV num2 den2)"

fun addValues :: "ValueBase \<Rightarrow> ValueBase \<Rightarrow> error + ValueBase" where
  "addValues (IntegerV n1) (IntegerV n2) = Inr (IntegerV (int_add n1 n2))"
| "addValues (RationalV p1 q1) (RationalV p2 q2) =
     Inr (reduce (int_add (int_mul p1 q2) (int_mul p2 q1)) (int_mul q1 q2))"
| "addValues (IntegerV n1) (RationalV p2 q2) = Inr (reduce (int_add (int_mul n1 q2) p2) q2)"
| "addValues (RationalV p1 q1) (IntegerV n2) = Inr (reduce (int_add p1 (int_mul n2 q1)) q1)"
| "addValues _ _ = Inl (RuntimeError ''Wrong typename in addition'')"

fun subtractValues :: "ValueBase \<Rightarrow> ValueBase \<Rightarrow> error + ValueBase" where
  "subtractValues (IntegerV n1) (IntegerV n2) = Inr (IntegerV (int_sub n1 n2))"
| "subtractValues (RationalV p1 q1) (RationalV p2 q2) =
     Inr (reduce (int_sub (int_mul p1 q2) (int_mul p2 q1)) (int_mul q1 q2))"
| "subtractValues (IntegerV n1) (RationalV p2 q2) = Inr (reduce (int_sub (int_mul n1 q2) p2) q2)"
| "subtractValues (RationalV p1 q1) (IntegerV n2) = Inr (reduce (int_sub p1 (int_mul n2 q1)) q1)"
| "subtractValues _ _ = Inl (RuntimeError ''Wrong typename in subtraction'')"

fun multiplyValues :: "ValueBase \<Rightarrow> ValueBase \<Rightarrow> error + ValueBase" where
  "multiplyValues (IntegerV n1) (IntegerV n2) = Inr (IntegerV (int_mul n1 n2))"
| "multiplyValues (RationalV p1 q1) (RationalV p2 q2) =
     Inr (reduce (int_mul p1 p2) (int_mul q1 q2))"
| "multiplyValues (IntegerV n1) (RationalV p2 q2) = Inr (reduce (int_mul n1 p2) q2)"
| "multiplyValues (RationalV p1 q1) (IntegerV n2) = Inr (reduce (int_mul p1 n2) q1)"
| "multiplyValues _ _ = Inl (RuntimeError ''Wrong typename in multiplication'')"

fun divideValues :: "ValueBase \<Rightarrow> ValueBase \<Rightarrow> error + ValueBase" where
  "divideValues (IntegerV n1) (IntegerV n2) =
     (if n2 = 0 then Inl (RuntimeError ''Division by zero'') else Inr (reduce n1 n2))"
| "divideValues (RationalV p1 q1) (RationalV p2 q2) =
     (if p2 = 0 then Inl (RuntimeError ''Division by zero'')
      else Inr (reduce (int_mul p1 q2) (int_mul q1 p2)))"
| "divideValues (IntegerV n1) (RationalV p2 q2) =
     (if p2 = 0 then Inl (RuntimeError ''Division by zero'')
      else Inr (reduce (int_mul n1 q2) p2))"
| "divideValues (RationalV p1 q1) (IntegerV n2) =
     (if n2 = 0 then Inl (RuntimeError ''Division by zero'')
      else Inr (reduce p1 (int_mul q1 n2)))"
| "divideValues _ _ = Inl (RuntimeError ''Wrong typename in division'')"

text \<open>
  \<open>modulo\<close> is the remainder of the truncating division. The remainder of \<open>INT_MIN\<close> by
  -1, whose quotient is no \<open>int\<close>, is undefined in the language and a processor may trap
  on it; the model gives the remainder, 0.
\<close>

fun Modulo_evalRator :: "ValueBase \<Rightarrow> ValueBase \<Rightarrow> error + ValueBase" where
  "Modulo_evalRator (IntegerV dividend) (IntegerV divisor) =
     (if divisor = 0 then Inl (RuntimeError ''Division by zero'')
      else Inr (IntegerV (int_mod dividend divisor)))"
| "Modulo_evalRator _ _ = Inl (RuntimeError ''modulo is only defined for integers'')"

text \<open>
  The loop of \<open>Expt::evalRator\<close>. \<open>result\<close> and \<open>b\<close> are \<open>long long\<close>: \<open>result\<close> is
  checked against the \<open>int\<close> range after every product, and \<open>b\<close> is squared only while
  it is in that range, so no product leaves 64 bits.
\<close>

function expt_loop :: "int \<Rightarrow> int \<Rightarrow> int \<Rightarrow> error + int" where
  "expt_loop result b expn =
     (if expn > 0 then
        (let result1 = (if expn smod 2 = 1 then result * b else result) in
         if expn smod 2 = 1 \<and> (result1 > INT_MAX \<or> result1 < INT_MIN)
         then Inl (RuntimeError ''Integer overflow in expt'')
         else
           (let b1 = b * b in
            if (b1 > INT_MAX \<or> b1 < INT_MIN) \<and> expn > 1
            then Inl (RuntimeError ''Integer overflow in expt'')
            else expt_loop result1 b1 (expn sdiv 2)))
      else Inr result)"
  by pat_completeness auto
termination
  by (relation "measure (\<lambda>(result, b, expn). nat expn)")
     (auto simp: signed_divide_int_def sgn_if)

declare expt_loop.simps [simp del]

fun Expt_evalRator :: "ValueBase \<Rightarrow> ValueBase \<Rightarrow> error + ValueBase" where
  "Expt_evalRator (IntegerV base) (IntegerV exponent) =
     (if exponent < 0 then Inl (RuntimeError ''Negative exponent not supported for integers'')
      else if base = 0 \<and> exponent = 0 then Inl (RuntimeError ''0^0 is undefined'')
      else (case expt_loop 1 base exponent of
              Inl e \<Rightarrow> Inl e
            | Inr result \<Rightarrow> Inr (IntegerV result)))"
| "Expt_evalRator _ _ = Inl (RuntimeError ''Wrong typename'')"


text \<open>The three-way comparison on the numeric tower.\<close>

definition three_way :: "int \<Rightarrow> int \<Rightarrow> int" where
  "three_way left right = (if left < right then - 1 else if left > right then 1 else 0)"

fun compareNumericValues :: "ValueBase \<Rightarrow> ValueBase \<Rightarrow> error + int" where
  "compareNumericValues (IntegerV n1) (IntegerV n2) = Inr (three_way n1 n2)"
| "compareNumericValues (RationalV p1 q1) (IntegerV n2) = Inr (three_way p1 (int_mul n2 q1))"
| "compareNumericValues (IntegerV n1) (RationalV p2 q2) = Inr (three_way (int_mul n1 q2) p2)"
| "compareNumericValues (RationalV p1 q1) (RationalV p2 q2) =
     Inr (three_way (int_mul p1 q2) (int_mul p2 q1))"
| "compareNumericValues _ _ = Inl (RuntimeError ''Wrong typename in numeric comparison'')"

text \<open>
  The loop shared by the five variadic comparisons: \<open>bad\<close> is the test on the
  three-way result that makes the loop return \<open>#f\<close>.
\<close>

fun compare_chain :: "(int \<Rightarrow> bool) \<Rightarrow> ValueBase list \<Rightarrow> error + bool" where
  "compare_chain bad (a # b # rest) =
     (case compareNumericValues a b of
        Inl e \<Rightarrow> Inl e
      | Inr c \<Rightarrow> if bad c then Inr False else compare_chain bad (b # rest))"
| "compare_chain bad _ = Inr True"

section \<open>Operators on heap values\<close>

text \<open>An operator that builds its result allocates it; an error leaves the heap as it is.\<close>

definition fresh :: "error + ValueBase \<Rightarrow> state \<Rightarrow> (error + addr) \<times> state" where
  "fresh r s =
     (case r of
        Inl e \<Rightarrow> (Inl e, s)
      | Inr ob \<Rightarrow> (let (a, s1) = new_value ob s in (Inr a, s1)))"

definition is_false :: "ValueBase \<Rightarrow> bool" where
  "is_false ob = (case ob of BooleanV b \<Rightarrow> \<not> b | _ \<Rightarrow> False)"

text \<open>
  \<open>list?\<close> follows the cdr chain while it meets pairs. A chain without a cycle visits
  each heap object at most once, so a walk that is still on a pair after more steps than
  the heap has objects is on a cycle, where the source loops forever.
\<close>

fun IsList_walk :: "nat \<Rightarrow> addr \<Rightarrow> state \<Rightarrow> error + ValueBase" where
  "IsList_walk 0 cur s = Inl OutOfFuel"
| "IsList_walk (Suc n) cur s =
     (case heap s ! cur of
        PairV a d \<Rightarrow> IsList_walk n d s
      | ob \<Rightarrow> Inr (BooleanV (ob = NullV)))"

text \<open>\<open>display\<close> returns Void; what it writes to standard output is not part of the state.\<close>

fun Unary_evalRator :: "unary_op \<Rightarrow> addr \<Rightarrow> state \<Rightarrow> (error + addr) \<times> state" where
  "Unary_evalRator IsList rand s =
     (if heap s ! rand = NullV then fresh (Inr (BooleanV True)) s
      else case heap s ! rand of
          PairV a d \<Rightarrow> fresh (IsList_walk (Suc (length (heap s))) rand s) s
        | _ \<Rightarrow> fresh (Inr (BooleanV False)) s)"
| "Unary_evalRator Car rand s =
     (case heap s ! rand of
        PairV a d \<Rightarrow> (Inr a, s)
      | _ \<Rightarrow> (Inl (RuntimeError ''car: argument must be a pair''), s))"
| "Unary_evalRator Cdr rand s =
     (case heap s ! rand of
        PairV a d \<Rightarrow> (Inr d, s)
      | _ \<Rightarrow> (Inl (RuntimeError ''cdr: argument must be a pair''), s))"
| "Unary_evalRator IsBoolean rand s =
     fresh (Inr (BooleanV (case heap s ! rand of BooleanV b \<Rightarrow> True | _ \<Rightarrow> False))) s"
| "Unary_evalRator IsFixnum rand s =
     fresh (Inr (BooleanV (case heap s ! rand of IntegerV n \<Rightarrow> True | _ \<Rightarrow> False))) s"
| "Unary_evalRator IsNull rand s = fresh (Inr (BooleanV (heap s ! rand = NullV))) s"
| "Unary_evalRator IsPair rand s =
     fresh (Inr (BooleanV (case heap s ! rand of PairV a d \<Rightarrow> True | _ \<Rightarrow> False))) s"
| "Unary_evalRator IsProcedure rand s =
     fresh (Inr (BooleanV (case heap s ! rand of ProcedureV ps b e \<Rightarrow> True | _ \<Rightarrow> False))) s"
| "Unary_evalRator IsSymbol rand s =
     fresh (Inr (BooleanV (case heap s ! rand of SymbolV x \<Rightarrow> True | _ \<Rightarrow> False))) s"
| "Unary_evalRator IsString rand s =
     fresh (Inr (BooleanV (case heap s ! rand of StringV x \<Rightarrow> True | _ \<Rightarrow> False))) s"
| "Unary_evalRator Not_op rand s = fresh (Inr (BooleanV (is_false (heap s ! rand)))) s"
| "Unary_evalRator Display rand s = fresh (Inr VoidV) s"

definition compare_with ::
  "(int \<Rightarrow> bool) \<Rightarrow> ValueBase \<Rightarrow> ValueBase \<Rightarrow> error + ValueBase" where
  "compare_with holds v1 v2 =
     (case compareNumericValues v1 v2 of
        Inl e \<Rightarrow> Inl e
      | Inr c \<Rightarrow> Inr (BooleanV (holds c)))"

text \<open>
  \<open>eq?\<close>: by value on two Integers, two Booleans or two Symbols, true on two Nulls and
  on two Voids, and the comparison of the two pointers in every other case.
\<close>

definition IsEq_evalRator :: "addr \<Rightarrow> addr \<Rightarrow> state \<Rightarrow> (error + addr) \<times> state" where
  "IsEq_evalRator rand1 rand2 s =
     (case (heap s ! rand1, heap s ! rand2) of
        (IntegerV n1, IntegerV n2) \<Rightarrow> fresh (Inr (BooleanV (n1 = n2))) s
      | (BooleanV b1, BooleanV b2) \<Rightarrow> fresh (Inr (BooleanV (b1 = b2))) s
      | (SymbolV s1, SymbolV s2) \<Rightarrow> fresh (Inr (BooleanV (s1 = s2))) s
      | (NullV, NullV) \<Rightarrow> fresh (Inr (BooleanV True)) s
      | (VoidV, VoidV) \<Rightarrow> fresh (Inr (BooleanV True)) s
      | _ \<Rightarrow> fresh (Inr (BooleanV (rand1 = rand2))) s)"

fun Binary_evalRator ::
  "binary_op \<Rightarrow> addr \<Rightarrow> addr \<Rightarrow> state \<Rightarrow> (error + addr) \<times> state" where
  "Binary_evalRator Plus_op rand1 rand2 s = fresh (addValues (heap s ! rand1) (heap s ! rand2)) s"
| "Binary_evalRator Minus rand1 rand2 s =
     fresh (subtractValues (heap s ! rand1) (heap s ! rand2)) s"
| "Binary_evalRator Mult rand1 rand2 s =
     fresh (multiplyValues (heap s ! rand1) (heap s ! rand2)) s"
| "Binary_evalRator Div rand1 rand2 s = fresh (divideValues (heap s ! rand1) (heap s ! rand2)) s"
| "Binary_evalRator Modulo rand1 rand2 s =
     fresh (Modulo_evalRator (heap s ! rand1) (heap s ! rand2)) s"
| "Binary_evalRator Expt rand1 rand2 s =
     fresh (Expt_evalRator (heap s ! rand1) (heap s ! rand2)) s"
| "Binary_evalRator Less rand1 rand2 s =
     fresh (compare_with (\<lambda>c. c < 0) (heap s ! rand1) (heap s ! rand2)) s"
| "Binary_evalRator LessEq rand1 rand2 s =
     fresh (compare_with (\<lambda>c. c \<le> 0) (heap s ! rand1) (heap s ! rand2)) s"
| "Binary_evalRator Equal rand1 rand2 s =
     fresh (compare_with (\<lambda>c. c = 0) (heap s ! rand1) (heap s ! rand2)) s"
| "Binary_evalRator GreaterEq rand1 rand2 s =
     fresh (compare_with (\<lambda>c. c \<ge> 0) (heap s ! rand1) (heap s ! rand2)) s"
| "Binary_evalRator Greater rand1 rand2 s =
     fresh (compare_with (\<lambda>c. c > 0) (heap s ! rand1) (heap s ! rand2)) s"
| "Binary_evalRator Cons_op rand1 rand2 s = fresh (Inr (PairV rand1 rand2)) s"
| "Binary_evalRator SetCar rand1 rand2 s =
     (case heap s ! rand1 of
        PairV a d \<Rightarrow> fresh (Inr VoidV) (s\<lparr>heap := (heap s)[rand1 := PairV rand2 d]\<rparr>)
      | _ \<Rightarrow> (Inl (RuntimeError ''set-car!: first argument must be a pair''), s))"
| "Binary_evalRator SetCdr rand1 rand2 s =
     (case heap s ! rand1 of
        PairV a d \<Rightarrow> fresh (Inr VoidV) (s\<lparr>heap := (heap s)[rand1 := PairV a rand2]\<rparr>)
      | _ \<Rightarrow> (Inl (RuntimeError ''set-cdr!: first argument must be a pair''), s))"
| "Binary_evalRator IsEq rand1 rand2 s = IsEq_evalRator rand1 rand2 s"

text \<open>
  The loop \<open>result = op(result, args[i])\<close> of the variadic arithmetic operators: every
  step allocates its result.
\<close>

fun fold_values ::
  "(ValueBase \<Rightarrow> ValueBase \<Rightarrow> error + ValueBase) \<Rightarrow> addr \<Rightarrow> addr list \<Rightarrow> state \<Rightarrow>
   (error + addr) \<times> state" where
  "fold_values f result [] s = (Inr result, s)"
| "fold_values f result (a # as) s =
     (case fresh (f (heap s ! result) (heap s ! a)) s of
        (Inl e, s1) \<Rightarrow> (Inl e, s1)
      | (Inr result1, s1) \<Rightarrow> fold_values f result1 as s1)"

text \<open>\<open>list\<close> starts from a new Null and conses the arguments on from the last to the first.\<close>

fun ListFunc_loop :: "addr list \<Rightarrow> addr \<Rightarrow> state \<Rightarrow> addr \<times> state" where
  "ListFunc_loop [] result s = (result, s)"
| "ListFunc_loop (a # as) result s =
     (let (result1, s1) = ListFunc_loop as result s in new_value (PairV a result1) s1)"

definition negate :: "ValueBase \<Rightarrow> error + ValueBase" where
  "negate ob =
     (case ob of
        IntegerV n \<Rightarrow> Inr (IntegerV (int_neg n))
      | RationalV p q \<Rightarrow> Inr (RationalV (int_neg p) q)
      | _ \<Rightarrow> Inl (RuntimeError ''Wrong typename''))"

fun Variadic_evalRator ::
  "variadic_op \<Rightarrow> addr list \<Rightarrow> state \<Rightarrow> (error + addr) \<times> state" where
  "Variadic_evalRator PlusVar args s =
     (case args of
        [] \<Rightarrow> fresh (Inr (IntegerV 0)) s
      | a # as \<Rightarrow> fold_values addValues a as s)"
| "Variadic_evalRator MinusVar args s =
     (case args of
        [] \<Rightarrow> (Inl (RuntimeError ''Wrong number of arguments for -''), s)
      | [a] \<Rightarrow> fresh (negate (heap s ! a)) s
      | a # as \<Rightarrow> fold_values subtractValues a as s)"
| "Variadic_evalRator MultVar args s =
     (case args of
        [] \<Rightarrow> fresh (Inr (IntegerV 1)) s
      | a # as \<Rightarrow> fold_values multiplyValues a as s)"
| "Variadic_evalRator DivVar args s =
     (case args of
        [] \<Rightarrow> (Inl (RuntimeError ''Wrong number of arguments for /''), s)
      | [a] \<Rightarrow>
          (let (one, s1) = new_value (IntegerV 1) s
           in fresh (divideValues (heap s1 ! one) (heap s1 ! a)) s1)
      | a # as \<Rightarrow> fold_values divideValues a as s)"
| "Variadic_evalRator LessVar args s =
     fresh (map_sum id BooleanV (compare_chain (\<lambda>c. c \<ge> 0) (map (\<lambda>a. heap s ! a) args))) s"
| "Variadic_evalRator LessEqVar args s =
     fresh (map_sum id BooleanV (compare_chain (\<lambda>c. c > 0) (map (\<lambda>a. heap s ! a) args))) s"
| "Variadic_evalRator EqualVar args s =
     fresh (map_sum id BooleanV (compare_chain (\<lambda>c. c \<noteq> 0) (map (\<lambda>a. heap s ! a) args))) s"
| "Variadic_evalRator GreaterEqVar args s =
     fresh (map_sum id BooleanV (compare_chain (\<lambda>c. c < 0) (map (\<lambda>a. heap s ! a) args))) s"
| "Variadic_evalRator GreaterVar args s =
     fresh (map_sum id BooleanV (compare_chain (\<lambda>c. c \<le> 0) (map (\<lambda>a. heap s ! a) args))) s"
| "Variadic_evalRator ListFunc args s =
     (let (nil, s1) = new_value NullV s;
          (result, s2) = ListFunc_loop args nil s1
      in (Inr result, s2))"

text \<open>
  \<open>syntaxToValue\<close>, the value of a quoted datum. A non-empty list starts from a new Null
  and conses the converted elements on from the last to the first.
\<close>

fun syntaxToValue :: "Syntax \<Rightarrow> state \<Rightarrow> addr \<times> state"
  and syntaxToValue_loop :: "Syntax list \<Rightarrow> addr \<Rightarrow> state \<Rightarrow> addr \<times> state" where
  "syntaxToValue (Number n) s = new_value (IntegerV n) s"
| "syntaxToValue (RationalSyntax numerator denominator) s =
     new_value (RationalV numerator denominator) s"
| "syntaxToValue TrueSyntax s = new_value (BooleanV True) s"
| "syntaxToValue FalseSyntax s = new_value (BooleanV False) s"
| "syntaxToValue (SymbolSyntax x) s = new_value (SymbolV x) s"
| "syntaxToValue (StringSyntax x) s = new_value (StringV x) s"
| "syntaxToValue (List stxs) s =
     (if stxs = [] then new_value NullV s
      else (let (nil, s1) = new_value NullV s in syntaxToValue_loop stxs nil s1))"
| "syntaxToValue_loop [] result s = (result, s)"
| "syntaxToValue_loop (stx # stxs) result s =
     (let (result1, s1) = syntaxToValue_loop stxs result s;
          (v, s2) = syntaxToValue stx s1
      in new_value (PairV v result1) s2)"


section \<open>Evaluator\<close>

text \<open>
  \<open>eval\<close> takes the environment by reference: \<open>Define\<close> assigns the extended
  environment to it, so every evaluation returns the environment of its caller along with
  the result and the state, also when it throws. The evaluator of the sub-expressions is
  the parameter \<open>ev\<close>.
\<close>

type_synonym 'a res = "(error + 'a) \<times> Assoc \<times> state"

type_synonym evaluator = "Expr \<Rightarrow> Assoc \<Rightarrow> state \<Rightarrow> addr res"

definition fresh_res :: "ValueBase \<Rightarrow> Assoc \<Rightarrow> state \<Rightarrow> addr res" where
  "fresh_res ob env s = (let (a, s1) = new_value ob s in (Inr a, env, s1))"

text \<open>The loop that evaluates operands, arguments and binding expressions in order.\<close>

fun eval_rands :: "evaluator \<Rightarrow> Expr list \<Rightarrow> Assoc \<Rightarrow> state \<Rightarrow> (addr list) res" where
  "eval_rands ev [] env s = (Inr [], env, s)"
| "eval_rands ev (e # es) env s =
     (case ev e env s of
        (Inl er, env1, s1) \<Rightarrow> (Inl er, env1, s1)
      | (Inr v, env1, s1) \<Rightarrow>
          (case eval_rands ev es env1 s1 of
             (Inl er, env2, s2) \<Rightarrow> (Inl er, env2, s2)
           | (Inr vs, env2, s2) \<Rightarrow> (Inr (v # vs), env2, s2)))"

text \<open>The loop \<open>result = expr->eval(e)\<close> of \<open>Begin\<close> and of the clause bodies of \<open>Cond\<close>.\<close>

fun eval_seq :: "evaluator \<Rightarrow> Expr list \<Rightarrow> addr \<Rightarrow> Assoc \<Rightarrow> state \<Rightarrow> addr res" where
  "eval_seq ev [] result env s = (Inr result, env, s)"
| "eval_seq ev (e # es) result env s =
     (case ev e env s of
        (Inl er, env1, s1) \<Rightarrow> (Inl er, env1, s1)
      | (Inr v, env1, s1) \<Rightarrow> eval_seq ev es v env1 s1)"

definition Begin_eval :: "evaluator \<Rightarrow> Expr list \<Rightarrow> Assoc \<Rightarrow> state \<Rightarrow> addr res" where
  "Begin_eval ev es env s =
     (if es = [] then fresh_res VoidV env s
      else (let (result, s1) = new_value VoidV s in eval_seq ev es result env s1))"

fun and_loop :: "evaluator \<Rightarrow> Expr list \<Rightarrow> addr \<Rightarrow> Assoc \<Rightarrow> state \<Rightarrow> addr res" where
  "and_loop ev [] result env s = (Inr result, env, s)"
| "and_loop ev (e # es) result env s =
     (case ev e env s of
        (Inl er, env1, s1) \<Rightarrow> (Inl er, env1, s1)
      | (Inr v, env1, s1) \<Rightarrow>
          if is_false (heap s1 ! v) then fresh_res (BooleanV False) env1 s1
          else and_loop ev es v env1 s1)"

definition AndVar_eval :: "evaluator \<Rightarrow> Expr list \<Rightarrow> Assoc \<Rightarrow> state \<Rightarrow> addr res" where
  "AndVar_eval ev rands env s =
     (if rands = [] then fresh_res (BooleanV True) env s
      else (let (result, s1) = new_value (BooleanV True) s in and_loop ev rands result env s1))"

fun or_loop :: "evaluator \<Rightarrow> Expr list \<Rightarrow> Assoc \<Rightarrow> state \<Rightarrow> addr res" where
  "or_loop ev [] env s = fresh_res (BooleanV False) env s"
| "or_loop ev (e # es) env s =
     (case ev e env s of
        (Inl er, env1, s1) \<Rightarrow> (Inl er, env1, s1)
      | (Inr v, env1, s1) \<Rightarrow>
          if \<not> is_false (heap s1 ! v) then (Inr v, env1, s1)
          else or_loop ev es env1 s1)"

definition OrVar_eval :: "evaluator \<Rightarrow> Expr list \<Rightarrow> Assoc \<Rightarrow> state \<Rightarrow> addr res" where
  "OrVar_eval ev rands env s =
     (if rands = [] then fresh_res (BooleanV False) env s else or_loop ev rands env s)"

definition If_eval :: "evaluator \<Rightarrow> Expr \<Rightarrow> Expr \<Rightarrow> Expr \<Rightarrow> Assoc \<Rightarrow> state \<Rightarrow> addr res" where
  "If_eval ev cond conseq alter env s =
     (case ev cond env s of
        (Inl er, env1, s1) \<Rightarrow> (Inl er, env1, s1)
      | (Inr cond_val, env1, s1) \<Rightarrow>
          if \<not> is_false (heap s1 ! cond_val) then ev conseq env1 s1 else ev alter env1 s1)"

text \<open>The body of a clause that is taken: the expressions after its head.\<close>

definition clause_body :: "evaluator \<Rightarrow> Expr list \<Rightarrow> Assoc \<Rightarrow> state \<Rightarrow> addr res" where
  "clause_body ev es env s = (let (result, s1) = new_value VoidV s in eval_seq ev es result env s1)"

fun Cond_eval :: "evaluator \<Rightarrow> Expr list list \<Rightarrow> Assoc \<Rightarrow> state \<Rightarrow> addr res" where
  "Cond_eval ev [] env s = fresh_res VoidV env s"
| "Cond_eval ev ([] # clauses) env s = Cond_eval ev clauses env s"
| "Cond_eval ev ((test # body) # clauses) env s =
     (if test = Var ''else'' then
        (if body = [] then fresh_res VoidV env s else clause_body ev body env s)
      else
        (case ev test env s of
           (Inl er, env1, s1) \<Rightarrow> (Inl er, env1, s1)
         | (Inr cond_val, env1, s1) \<Rightarrow>
             if \<not> is_false (heap s1 ! cond_val) then
               (if body = [] then (Inr cond_val, env1, s1) else clause_body ev body env1 s1)
             else Cond_eval ev clauses env1 s1))"

fun extend_all :: "(string \<times> addr option) list \<Rightarrow> Assoc \<Rightarrow> state \<Rightarrow> Assoc \<times> state" where
  "extend_all [] env s = (env, s)"
| "extend_all ((x, v) # rest) env s =
     (let (env1, s1) = extend x v env s in extend_all rest env1 s1)"

definition Var_eval :: "(string \<rightharpoonup> ExprType) \<Rightarrow> string \<Rightarrow> Assoc \<Rightarrow> state \<Rightarrow> addr res" where
  "Var_eval primitives x env s =
     (case find x env s of
        None \<Rightarrow>
          if primitives x \<noteq> None then fresh_res (ProcedureV [] (Var x) env) env s
          else (Inl (RuntimeError (''Undefined variable: '' @ x)), env, s)
      | Some matched_value \<Rightarrow> (Inr matched_value, env, s))"

text \<open>
  \<open>Apply::eval\<close>. The block that tests for a \<open>Begin\<close> body is empty in the source. The
  body runs in \<open>param_env\<close>, a local: the caller's environment is the one left by the
  operator and the arguments.
\<close>

definition Apply_eval :: "evaluator \<Rightarrow> Expr \<Rightarrow> Expr list \<Rightarrow> Assoc \<Rightarrow> state \<Rightarrow> addr res" where
  "Apply_eval ev rator rand env s =
     (case ev rator env s of
        (Inl er, env1, s1) \<Rightarrow> (Inl er, env1, s1)
      | (Inr rator_val, env1, s1) \<Rightarrow>
          (case heap s1 ! rator_val of
             ProcedureV parameters body clos_env \<Rightarrow>
               (case eval_rands ev rand env1 s1 of
                  (Inl er, env2, s2) \<Rightarrow> (Inl er, env2, s2)
                | (Inr args, env2, s2) \<Rightarrow>
                    if length args \<noteq> length parameters
                    then (Inl (RuntimeError ''Wrong number of arguments''), env2, s2)
                    else
                      (let (param_env, s3) = extend_all (zip parameters (map Some args)) clos_env s2
                       in case ev body param_env s3 of (r, param_env1, s4) \<Rightarrow> (r, env2, s4)))
           | _ \<Rightarrow> (Inl (RuntimeError ''Attempt to apply a non-procedure''), env1, s1)))"

definition Define_eval ::
  "(string \<rightharpoonup> ExprType) \<Rightarrow> (string \<rightharpoonup> ExprType) \<Rightarrow> evaluator \<Rightarrow> string \<Rightarrow> Expr \<Rightarrow>
   Assoc \<Rightarrow> state \<Rightarrow> addr res" where
  "Define_eval primitives reserved_words ev var e env s =
     (if primitives var \<noteq> None \<or> reserved_words var \<noteq> None
      then (Inl (RuntimeError (''Cannot redefine primitive or reserved word: '' @ var)), env, s)
      else
        (case ev e env s of
           (Inl er, env1, s1) \<Rightarrow> (Inl er, env1, s1)
         | (Inr val, env1, s1) \<Rightarrow>
             (case find var env1 s1 of
                Some existing \<Rightarrow> fresh_res VoidV env1 (modify var (Some val) env1 s1)
              | None \<Rightarrow>
                  (let (env2, s2) = extend var (Some val) env1 s1 in fresh_res VoidV env2 s2))))"

definition Let_eval ::
  "evaluator \<Rightarrow> (string \<times> Expr) list \<Rightarrow> Expr \<Rightarrow> Assoc \<Rightarrow> state \<Rightarrow> addr res" where
  "Let_eval ev bind body env s =
     (case eval_rands ev (map snd bind) env s of
        (Inl er, env1, s1) \<Rightarrow> (Inl er, env1, s1)
      | (Inr vals, env1, s1) \<Rightarrow>
          (let (new_env, s2) = extend_all (zip (map fst bind) (map Some vals)) env1 s1
           in case ev body new_env s2 of (r, new_env1, s3) \<Rightarrow> (r, env1, s3)))"

text \<open>
  The second loop of \<open>Letrec::eval\<close>: each right-hand side runs in \<open>new_env\<close> and its
  value is written with \<open>modify\<close>. \<open>new_env\<close> is a local copy, so the caller's
  environment stays what it was.
\<close>

fun letrec_loop ::
  "evaluator \<Rightarrow> (string \<times> Expr) list \<Rightarrow> Assoc \<Rightarrow> state \<Rightarrow> unit res" where
  "letrec_loop ev [] new_env s = (Inr (), new_env, s)"
| "letrec_loop ev ((x, e) # rest) new_env s =
     (case ev e new_env s of
        (Inl er, new_env1, s1) \<Rightarrow> (Inl er, new_env1, s1)
      | (Inr val, new_env1, s1) \<Rightarrow>
          letrec_loop ev rest new_env1 (modify x (Some val) new_env1 s1))"

definition Letrec_eval ::
  "evaluator \<Rightarrow> (string \<times> Expr) list \<Rightarrow> Expr \<Rightarrow> Assoc \<Rightarrow> state \<Rightarrow> addr res" where
  "Letrec_eval ev bind body env s =
     (let (new_env, s1) = extend_all (map (\<lambda>binding. (fst binding, None)) bind) env s
      in case letrec_loop ev bind new_env s1 of
           (Inl er, new_env1, s2) \<Rightarrow> (Inl er, env, s2)
         | (Inr u, new_env1, s2) \<Rightarrow>
             (case ev body new_env1 s2 of (r, new_env2, s3) \<Rightarrow> (r, env, s3)))"

definition Set_eval :: "evaluator \<Rightarrow> string \<Rightarrow> Expr \<Rightarrow> Assoc \<Rightarrow> state \<Rightarrow> addr res" where
  "Set_eval ev var e env s =
     (case ev e env s of
        (Inl er, env1, s1) \<Rightarrow> (Inl er, env1, s1)
      | (Inr val, env1, s1) \<Rightarrow>
          (case find var env1 s1 of
             None \<Rightarrow> (Inl (RuntimeError (''Undefined variable in set!: '' @ var)), env1, s1)
           | Some existing \<Rightarrow> fresh_res VoidV env1 (modify var (Some val) env1 s1)))"

text \<open>
  The virtual call \<open>expr->eval(e)\<close>. C++ leaves the order of \<open>rand1->eval(e)\<close> and
  \<open>rand2->eval(e)\<close> in \<open>Binary::eval\<close> to the compiler; the model takes the order the
  spec gives, left to right.
\<close>

fun Expr_eval ::
  "(string \<rightharpoonup> ExprType) \<Rightarrow> (string \<rightharpoonup> ExprType) \<Rightarrow> evaluator \<Rightarrow> evaluator" where
  "Expr_eval P R ev (Fixnum n) env s = fresh_res (IntegerV n) env s"
| "Expr_eval P R ev (RationalNum numerator denominator) env s =
     fresh_res (RationalV numerator denominator) env s"
| "Expr_eval P R ev (StringExpr x) env s = fresh_res (StringV x) env s"
| "Expr_eval P R ev True_e env s = fresh_res (BooleanV True) env s"
| "Expr_eval P R ev False_e env s = fresh_res (BooleanV False) env s"
| "Expr_eval P R ev MakeVoid env s = fresh_res VoidV env s"
| "Expr_eval P R ev Exit env s = fresh_res TerminateV env s"
| "Expr_eval P R ev (Var x) env s = Var_eval P x env s"
| "Expr_eval P R ev (Unary op rand) env s =
     (case ev rand env s of
        (Inl er, env1, s1) \<Rightarrow> (Inl er, env1, s1)
      | (Inr v, env1, s1) \<Rightarrow> (case Unary_evalRator op v s1 of (r, s2) \<Rightarrow> (r, env1, s2)))"
| "Expr_eval P R ev (Binary op rand1 rand2) env s =
     (case ev rand1 env s of
        (Inl er, env1, s1) \<Rightarrow> (Inl er, env1, s1)
      | (Inr v1, env1, s1) \<Rightarrow>
          (case ev rand2 env1 s1 of
             (Inl er, env2, s2) \<Rightarrow> (Inl er, env2, s2)
           | (Inr v2, env2, s2) \<Rightarrow>
               (case Binary_evalRator op v1 v2 s2 of (r, s3) \<Rightarrow> (r, env2, s3))))"
| "Expr_eval P R ev (Variadic op rands) env s =
     (case eval_rands ev rands env s of
        (Inl er, env1, s1) \<Rightarrow> (Inl er, env1, s1)
      | (Inr args, env1, s1) \<Rightarrow>
          (case Variadic_evalRator op args s1 of (r, s2) \<Rightarrow> (r, env1, s2)))"
| "Expr_eval P R ev (AndVar rands) env s = AndVar_eval ev rands env s"
| "Expr_eval P R ev (OrVar rands) env s = OrVar_eval ev rands env s"
| "Expr_eval P R ev (Quote stx) env s = (case syntaxToValue stx s of (v, s1) \<Rightarrow> (Inr v, env, s1))"
| "Expr_eval P R ev (Begin es) env s = Begin_eval ev es env s"
| "Expr_eval P R ev (If_e cond conseq alter) env s = If_eval ev cond conseq alter env s"
| "Expr_eval P R ev (Cond clauses) env s = Cond_eval ev clauses env s"
| "Expr_eval P R ev (Lambda x e) env s = fresh_res (ProcedureV x e env) env s"
| "Expr_eval P R ev (Apply rator rand) env s = Apply_eval ev rator rand env s"
| "Expr_eval P R ev (Define var e) env s = Define_eval P R ev var e env s"
| "Expr_eval P R ev (Let_e bind body) env s = Let_eval ev bind body env s"
| "Expr_eval P R ev (Letrec bind body) env s = Letrec_eval ev bind body env s"
| "Expr_eval P R ev (Set_e var e) env s = Set_eval ev var e env s"

text \<open>
  The recursion of \<open>eval\<close> is bounded by a depth: \<open>eval P R n\<close> is the evaluation that
  nests at most \<open>n\<close> calls, and gives \<open>OutOfFuel\<close> where the source would go deeper.
  \<open>P\<close> and \<open>R\<close> are the tables \<open>primitives\<close> and \<open>reserved_words\<close>, defined in a file
  that is absent.
\<close>

fun eval :: "(string \<rightharpoonup> ExprType) \<Rightarrow> (string \<rightharpoonup> ExprType) \<Rightarrow> nat \<Rightarrow> evaluator" where
  "eval P R 0 e env s = (Inl OutOfFuel, env, s)"
| "eval P R (Suc n) e env s = Expr_eval P R (eval P R n) e env s"

section \<open>Parser\<close>


text \<open>
  The chain of tests on \<open>op_type\<close> in the primitive branch of \<open>List::parse\<close>, applied
  to the parsed arguments.
\<close>

definition arity_error :: "string \<Rightarrow> error + Expr" where
  "arity_error name = Inl (RuntimeError (''Wrong number of arguments for '' @ name))"

definition binary_or_variadic :: "binary_op \<Rightarrow> variadic_op \<Rightarrow> Expr list \<Rightarrow> error + Expr" where
  "binary_or_variadic b v parameters =
     (if length parameters = 2 then Inr (Binary b (parameters ! 0) (parameters ! 1))
      else Inr (Variadic v parameters))"

definition exactly2 :: "string \<Rightarrow> binary_op \<Rightarrow> Expr list \<Rightarrow> error + Expr" where
  "exactly2 name b parameters =
     (if length parameters \<noteq> 2 then arity_error name
      else Inr (Binary b (parameters ! 0) (parameters ! 1)))"

definition exactly1 :: "string \<Rightarrow> unary_op \<Rightarrow> Expr list \<Rightarrow> error + Expr" where
  "exactly1 name u parameters =
     (if length parameters \<noteq> 1 then arity_error name else Inr (Unary u (parameters ! 0)))"

definition exactly0 :: "string \<Rightarrow> Expr \<Rightarrow> Expr list \<Rightarrow> error + Expr" where
  "exactly0 name e parameters = (if length parameters \<noteq> 0 then arity_error name else Inr e)"

fun primitive_node :: "string \<Rightarrow> ExprType \<Rightarrow> Expr list \<Rightarrow> error + Expr" where
  "primitive_node op E_PLUS parameters = binary_or_variadic Plus_op PlusVar parameters"
| "primitive_node op E_MINUS parameters = binary_or_variadic Minus MinusVar parameters"
| "primitive_node op E_MUL parameters = binary_or_variadic Mult MultVar parameters"
| "primitive_node op E_DIV parameters = binary_or_variadic Div DivVar parameters"
| "primitive_node op E_MODULO parameters = exactly2 ''modulo'' Modulo parameters"
| "primitive_node op E_EXPT parameters = exactly2 ''expt'' Expt parameters"
| "primitive_node op E_LT parameters = binary_or_variadic Less LessVar parameters"
| "primitive_node op E_LE parameters = binary_or_variadic LessEq LessEqVar parameters"
| "primitive_node op E_EQ parameters = binary_or_variadic Equal EqualVar parameters"
| "primitive_node op E_GE parameters = binary_or_variadic GreaterEq GreaterEqVar parameters"
| "primitive_node op E_GT parameters = binary_or_variadic Greater GreaterVar parameters"
| "primitive_node op E_CONS parameters = exactly2 ''cons'' Cons_op parameters"
| "primitive_node op E_CAR parameters = exactly1 ''car'' Car parameters"
| "primitive_node op E_CDR parameters = exactly1 ''cdr'' Cdr parameters"
| "primitive_node op E_LIST parameters = Inr (Variadic ListFunc parameters)"
| "primitive_node op E_SETCAR parameters = exactly2 ''set-car!'' SetCar parameters"
| "primitive_node op E_SETCDR parameters = exactly2 ''set-cdr!'' SetCdr parameters"
| "primitive_node op E_NOT parameters = exactly1 ''not'' Not_op parameters"
| "primitive_node op E_AND parameters = Inr (AndVar parameters)"
| "primitive_node op E_OR parameters = Inr (OrVar parameters)"
| "primitive_node op E_EQQ parameters = exactly2 ''eq?'' IsEq parameters"
| "primitive_node op E_BOOLQ parameters = exactly1 ''boolean?'' IsBoolean parameters"
| "primitive_node op E_INTQ parameters = exactly1 ''number?'' IsFixnum parameters"
| "primitive_node op E_NULLQ parameters = exactly1 ''null?'' IsNull parameters"
| "primitive_node op E_PAIRQ parameters = exactly1 ''pair?'' IsPair parameters"
| "primitive_node op E_PROCQ parameters = exactly1 ''procedure?'' IsProcedure parameters"
| "primitive_node op E_SYMBOLQ parameters = exactly1 ''symbol?'' IsSymbol parameters"
| "primitive_node op E_LISTQ parameters = exactly1 ''list?'' IsList parameters"
| "primitive_node op E_STRINGQ parameters = exactly1 ''string?'' IsString parameters"
| "primitive_node op E_VOID parameters = exactly0 ''void'' MakeVoid parameters"
| "primitive_node op E_EXIT parameters = exactly0 ''exit'' Exit parameters"
| "primitive_node op E_DISPLAY parameters = exactly1 ''display'' Display parameters"
| "primitive_node op _ parameters = Inl (RuntimeError (''Unknown primitive: '' @ op))"


text \<open>
  The loops of \<open>List::parse\<close>. The parser of a sub-tree, \<open>stxs[i].parse(env)\<close> in the
  source, is the parameter \<open>prs\<close>.
\<close>

fun symbol_names :: "string \<Rightarrow> Syntax list \<Rightarrow> error + string list" where
  "symbol_names msg [] = Inr []"
| "symbol_names msg (stx # rest) =
     (case stx of
        SymbolSyntax x \<Rightarrow>
          (case symbol_names msg rest of Inl e \<Rightarrow> Inl e | Inr xs \<Rightarrow> Inr (x # xs))
      | _ \<Rightarrow> Inl (RuntimeError msg))"

fun parse_list :: "(Syntax \<Rightarrow> error + Expr) \<Rightarrow> Syntax list \<Rightarrow> error + Expr list" where
  "parse_list prs [] = Inr []"
| "parse_list prs (stx # stxs) =
     (case prs stx of
        Inl e \<Rightarrow> Inl e
      | Inr e1 \<Rightarrow>
          (case parse_list prs stxs of
             Inl e \<Rightarrow> Inl e
           | Inr es \<Rightarrow> Inr (e1 # es)))"

fun parse_clauses :: "(Syntax \<Rightarrow> error + Expr) \<Rightarrow> Syntax list \<Rightarrow> error + Expr list list" where
  "parse_clauses prs [] = Inr []"
| "parse_clauses prs (c # rest) =
     (case c of
        List clause_list \<Rightarrow>
          (case parse_list prs clause_list of
             Inl e \<Rightarrow> Inl e
           | Inr clause \<Rightarrow>
               (case parse_clauses prs rest of
                  Inl e \<Rightarrow> Inl e
                | Inr clauses \<Rightarrow> Inr (clause # clauses)))
      | _ \<Rightarrow> Inl (RuntimeError ''cond clause must be a list''))"

text \<open>The bindings of \<open>let\<close> and \<open>letrec\<close>; the messages start with the keyword \<open>kw\<close>.\<close>

fun parse_bindings ::
  "(Syntax \<Rightarrow> error + Expr) \<Rightarrow> string \<Rightarrow> Syntax list \<Rightarrow> error + (string \<times> Expr) list" where
  "parse_bindings prs kw [] = Inr []"
| "parse_bindings prs kw (binding # rest) =
     (case binding of
        List [v, rhs] \<Rightarrow>
          (case v of
             SymbolSyntax var \<Rightarrow>
               (case prs rhs of
                  Inl e \<Rightarrow> Inl e
                | Inr rhs1 \<Rightarrow>
                    (case parse_bindings prs kw rest of
                       Inl e \<Rightarrow> Inl e
                     | Inr bindings \<Rightarrow> Inr ((var, rhs1) # bindings)))
           | _ \<Rightarrow> Inl (RuntimeError (kw @ '' variable must be a symbol'')))
      | _ \<Rightarrow> Inl (RuntimeError (kw @ '' binding must be a pair'')))"

definition parse_body ::
  "(Syntax \<Rightarrow> error + Expr) \<Rightarrow> Syntax list \<Rightarrow> (Expr \<Rightarrow> Expr) \<Rightarrow> error + Expr" where
  "parse_body prs stxs node =
     (case parse_list prs stxs of
        Inl e \<Rightarrow> Inl e
      | Inr body_exprs \<Rightarrow> Inr (node (Begin body_exprs)))"

definition parse_If :: "(Syntax \<Rightarrow> error + Expr) \<Rightarrow> Syntax list \<Rightarrow> error + Expr" where
  "parse_If prs args =
     (case args of
        [c, t, e] \<Rightarrow>
          (case prs c of
             Inl er \<Rightarrow> Inl er
           | Inr c1 \<Rightarrow>
               (case prs t of
                  Inl er \<Rightarrow> Inl er
                | Inr t1 \<Rightarrow>
                    (case prs e of
                       Inl er \<Rightarrow> Inl er
                     | Inr e1 \<Rightarrow> Inr (If_e c1 t1 e1))))
      | _ \<Rightarrow> arity_error ''if'')"

definition parse_Lambda :: "(Syntax \<Rightarrow> error + Expr) \<Rightarrow> Syntax list \<Rightarrow> error + Expr" where
  "parse_Lambda prs args =
     (case args of
        params_list # b # bs \<Rightarrow>
          (case params_list of
             List ps \<Rightarrow>
               (case symbol_names ''lambda parameter must be a symbol'' ps of
                  Inl e \<Rightarrow> Inl e
                | Inr params \<Rightarrow> parse_body prs (b # bs) (Lambda params))
           | _ \<Rightarrow> Inl (RuntimeError ''lambda parameters must be a list''))
      | _ \<Rightarrow> arity_error ''lambda'')"

definition parse_Define :: "(Syntax \<Rightarrow> error + Expr) \<Rightarrow> Syntax list \<Rightarrow> error + Expr" where
  "parse_Define prs args =
     (case args of
        target # b # bs \<Rightarrow>
          (case target of
             SymbolSyntax var \<Rightarrow> parse_body prs (b # bs) (Define var)
           | List func_def \<Rightarrow>
               (case func_def of
                  [] \<Rightarrow> Inl (RuntimeError ''Invalid define syntax'')
                | name # ps \<Rightarrow>
                    (case name of
                       SymbolSyntax func_name \<Rightarrow>
                         (case symbol_names ''Function parameter must be a symbol'' ps of
                            Inl e \<Rightarrow> Inl e
                          | Inr params \<Rightarrow>
                              parse_body prs (b # bs) (\<lambda>body. Define func_name (Lambda params body)))
                     | _ \<Rightarrow> Inl (RuntimeError ''Function name must be a symbol'')))
           | _ \<Rightarrow> Inl (RuntimeError ''Invalid define syntax''))
      | _ \<Rightarrow> arity_error ''define'')"

definition parse_Let ::
  "(Syntax \<Rightarrow> error + Expr) \<Rightarrow> string \<Rightarrow> ((string \<times> Expr) list \<Rightarrow> Expr \<Rightarrow> Expr) \<Rightarrow>
   Syntax list \<Rightarrow> error + Expr" where
  "parse_Let prs kw node args =
     (case args of
        bindings_list # b # bs \<Rightarrow>
          (case bindings_list of
             List bl \<Rightarrow>
               (case parse_bindings prs kw bl of
                  Inl e \<Rightarrow> Inl e
                | Inr bindings \<Rightarrow> parse_body prs (b # bs) (node bindings))
           | _ \<Rightarrow> Inl (RuntimeError (kw @ '' bindings must be a list'')))
      | _ \<Rightarrow> arity_error kw)"

definition parse_Set :: "(Syntax \<Rightarrow> error + Expr) \<Rightarrow> Syntax list \<Rightarrow> error + Expr" where
  "parse_Set prs args =
     (case args of
        [target, e] \<Rightarrow>
          (case target of
             SymbolSyntax var \<Rightarrow>
               (case prs e of
                  Inl er \<Rightarrow> Inl er
                | Inr e1 \<Rightarrow> Inr (Set_e var e1))
           | _ \<Rightarrow> Inl (RuntimeError ''set! variable must be a symbol''))
      | _ \<Rightarrow> arity_error ''set!'')"

text \<open>The \<open>switch\<close> on the reserved word.\<close>

fun reserved_node ::
  "(Syntax \<Rightarrow> error + Expr) \<Rightarrow> string \<Rightarrow> ExprType \<Rightarrow> Syntax list \<Rightarrow> error + Expr" where
  "reserved_node prs op E_BEGIN args =
     (case parse_list prs args of
        Inl e \<Rightarrow> Inl e
      | Inr exprs \<Rightarrow> Inr (Begin exprs))"
| "reserved_node prs op E_QUOTE args =
     (case args of
        [datum] \<Rightarrow> Inr (Quote datum)
      | _ \<Rightarrow> arity_error ''quote'')"
| "reserved_node prs op E_IF args = parse_If prs args"
| "reserved_node prs op E_COND args =
     (case parse_clauses prs args of
        Inl e \<Rightarrow> Inl e
      | Inr clauses \<Rightarrow> Inr (Cond clauses))"
| "reserved_node prs op E_LAMBDA args = parse_Lambda prs args"
| "reserved_node prs op E_DEFINE args = parse_Define prs args"
| "reserved_node prs op E_LET args = parse_Let prs ''let'' Let_e args"
| "reserved_node prs op E_LETREC args = parse_Let prs ''letrec'' Letrec args"
| "reserved_node prs op E_SET args = parse_Set prs args"
| "reserved_node prs op _ args = Inl (RuntimeError (''Unknown reserved word: '' @ op))"

text \<open>The three places that build an \<open>Apply\<close>: the arguments are parsed before the head.\<close>

definition application ::
  "(Syntax \<Rightarrow> error + Expr) \<Rightarrow> Syntax \<Rightarrow> Syntax list \<Rightarrow> error + Expr" where
  "application prs rator args =
     (case parse_list prs args of
        Inl e \<Rightarrow> Inl e
      | Inr parameters \<Rightarrow>
          (case prs rator of
             Inl e \<Rightarrow> Inl e
           | Inr rator1 \<Rightarrow> Inr (Apply rator1 parameters)))"

definition List_parse ::
  "(string \<rightharpoonup> ExprType) \<Rightarrow> (string \<rightharpoonup> ExprType) \<Rightarrow> (Syntax \<Rightarrow> error + Expr) \<Rightarrow>
   Syntax list \<Rightarrow> Assoc \<Rightarrow> state \<Rightarrow> error + Expr" where
  "List_parse P R prs stxs env s =
     (case stxs of
        [] \<Rightarrow> Inr (Quote (List []))
      | rator # args \<Rightarrow>
          (case rator of
             SymbolSyntax op \<Rightarrow>
               if find op env s \<noteq> None then application prs rator args
               else
                 (case P op of
                    Some op_type \<Rightarrow>
                      (case parse_list prs args of
                         Inl e \<Rightarrow> Inl e
                       | Inr parameters \<Rightarrow> primitive_node op op_type parameters)
                  | None \<Rightarrow>
                      (case R op of
                         Some word \<Rightarrow> reserved_node prs op word args
                       | None \<Rightarrow> application prs rator args))
           | _ \<Rightarrow> application prs rator args))"

lemma size_in_list: "x \<in> set xs \<Longrightarrow> size x < Suc (size_list size xs)"
  by (induction xs) auto

lemma parse_list_cong:
  "(\<And>x. x \<in> set stxs \<Longrightarrow> f x = g x) \<Longrightarrow> parse_list f stxs = parse_list g stxs"
  by (induction stxs) (auto split: sum.splits)

lemma parse_clauses_cong:
  "(\<And>x cl. List cl \<in> set stxs \<Longrightarrow> x \<in> set cl \<Longrightarrow> f x = g x) \<Longrightarrow>
   parse_clauses f stxs = parse_clauses g stxs"
proof (induction stxs)
  case Nil
  show ?case by simp
next
  case (Cons c rest)
  have rest: "parse_clauses f rest = parse_clauses g rest"
    by (rule Cons.IH) (auto intro: Cons.prems)
  show ?case
  proof (cases c)
    case (List cl)
    have "parse_list f cl = parse_list g cl"
      by (rule parse_list_cong) (use Cons.prems List in auto)
    with rest List show ?thesis by (simp cong: sum.case_cong)
  qed simp_all
qed

lemma parse_bindings_cong:
  "(\<And>v rhs. List [v, rhs] \<in> set stxs \<Longrightarrow> f rhs = g rhs) \<Longrightarrow>
   parse_bindings f kw stxs = parse_bindings g kw stxs"
proof (induction stxs)
  case Nil
  show ?case by simp
next
  case (Cons b rest)
  have rest: "parse_bindings f kw rest = parse_bindings g kw rest"
    by (rule Cons.IH) (auto intro: Cons.prems)
  have here: "\<And>v rhs. b = List [v, rhs] \<Longrightarrow> f rhs = g rhs"
    using Cons.prems by auto
  show ?case
    using rest here by (auto split: Syntax.splits list.splits sum.splits)
qed

lemma size_clause:
  "List cl \<in> set args \<Longrightarrow> x \<in> set cl \<Longrightarrow> size x < Suc (size_list size args)"
proof -
  assume a: "List cl \<in> set args" and b: "x \<in> set cl"
  have "size x < Suc (size_list size cl)" using b by (rule size_in_list)
  also have "\<dots> = size (List cl)" by simp
  also have "\<dots> < Suc (size_list size args)" using a by (rule size_in_list)
  finally show ?thesis by simp
qed

lemma reserved_node_cong:
  assumes "\<And>x. size x < Suc (size_list size args) \<Longrightarrow> f x = g x"
  shows "reserved_node f op word args = reserved_node g op word args"
proof -
  have direct: "\<And>x. x \<in> set args \<Longrightarrow> f x = g x"
    using assms size_in_list by blast
  have pl: "parse_list f args = parse_list g args"
    by (rule parse_list_cong) (rule direct)
  have pc: "parse_clauses f args = parse_clauses g args"
    by (rule parse_clauses_cong) (use assms size_clause in blast)
  have tl: "\<And>a b bs. args = a # b # bs \<Longrightarrow> parse_list f (b # bs) = parse_list g (b # bs)"
    by (rule parse_list_cong) (use direct in auto)
  have body: "\<And>a b bs node. args = a # b # bs \<Longrightarrow> parse_body f (b # bs) node = parse_body g (b # bs) node"
    using tl by (simp add: parse_body_def)
  have pb: "\<And>bl b bs kw. args = List bl # b # bs \<Longrightarrow> parse_bindings f kw bl = parse_bindings g kw bl"
  proof (rule parse_bindings_cong)
    fix bl b bs kw v rhs
    assume "args = List bl # b # bs" and "List [v, rhs] \<in> set bl"
    then have "size rhs < Suc (size_list size args)"
      using size_clause [of "[v, rhs]" bl rhs] by simp
    then show "f rhs = g rhs" by (rule assms)
  qed
  have pif: "parse_If f args = parse_If g args"
    using direct by (auto simp: parse_If_def split: list.splits sum.splits)
  have plam: "parse_Lambda f args = parse_Lambda g args"
    using body by (auto simp: parse_Lambda_def split: list.splits Syntax.splits sum.splits)
  have pdef: "parse_Define f args = parse_Define g args"
    using body by (auto simp: parse_Define_def split: list.splits Syntax.splits sum.splits)
  have plet: "\<And>kw node. parse_Let f kw node args = parse_Let g kw node args"
    using body pb by (auto simp: parse_Let_def split: list.splits Syntax.splits sum.splits)
  have pset: "parse_Set f args = parse_Set g args"
    using direct by (auto simp: parse_Set_def split: list.splits Syntax.splits sum.splits)
  show ?thesis
    by (cases word) (simp_all add: pl pc pif plam pdef plet pset)
qed

lemma List_parse_cong [fundef_cong]:
  assumes "stxs = stxs'" and "env = env'" and "s = s'"
    and "\<And>x. size x < Suc (size_list size stxs') \<Longrightarrow> f x = g x"
  shows "List_parse P R f stxs env s = List_parse P R g stxs' env' s'"
proof (cases stxs')
  case Nil
  with assms show ?thesis by (simp add: List_parse_def)
next
  case (Cons rator args)
  have direct: "\<And>x. x \<in> set stxs' \<Longrightarrow> f x = g x"
    using assms(4) size_in_list by blast
  have pl: "parse_list f args = parse_list g args"
    by (rule parse_list_cong) (use direct Cons in simp)
  have "f rator = g rator"
    using direct Cons by simp
  then have app: "application f rator args = application g rator args"
    using pl by (simp add: application_def cong: sum.case_cong)
  have res: "\<And>op word. reserved_node f op word args = reserved_node g op word args"
    by (rule reserved_node_cong) (use assms(4) Cons in simp)
  show ?thesis
    using assms(1-3) Cons pl app res
    by (auto simp: List_parse_def split: Syntax.splits option.splits)
qed

fun parse ::
  "(string \<rightharpoonup> ExprType) \<Rightarrow> (string \<rightharpoonup> ExprType) \<Rightarrow> Syntax \<Rightarrow> Assoc \<Rightarrow> state \<Rightarrow> error + Expr" where
  "parse P R (Number n) env s = Inr (Fixnum n)"
| "parse P R (RationalSyntax numerator denominator) env s =
     Inr (RationalNum numerator denominator)"
| "parse P R (SymbolSyntax x) env s = Inr (Var x)"
| "parse P R (StringSyntax x) env s = Inr (StringExpr x)"
| "parse P R TrueSyntax env s = Inr True_e"
| "parse P R FalseSyntax env s = Inr False_e"
| "parse P R (List stxs) env s = List_parse P R (\<lambda>stx. parse P R stx env s) stxs env s"


section \<open>Notions used in the statements\<close>

text \<open>The range of a 32-bit signed \<open>int\<close>.\<close>

definition in_int :: "int \<Rightarrow> bool" where
  "in_int n \<longleftrightarrow> INT_MIN \<le> n \<and> n \<le> INT_MAX"

text \<open>
  \<open>normalized\<close>: an object that, if it is a Rational, is in lowest terms with a
  denominator above 1. \<open>numeric\<close>: an Integer, or a Rational whose denominator is not
  zero, and \<open>rat_of\<close> the number it stands for. \<open>value_of\<close> and \<open>error_of\<close>: the
  object an evaluation returns and the error it throws; \<open>returned\<close> and \<open>thrown\<close>: the
  same for an operator.
\<close>

definition normalized :: "ValueBase \<Rightarrow> bool" where
  "normalized v = (case v of RationalV p q \<Rightarrow> 1 < q \<and> gcd \<bar>p\<bar> q = 1 | _ \<Rightarrow> True)"

definition numeric :: "ValueBase \<Rightarrow> bool" where
  "numeric v = (case v of IntegerV n \<Rightarrow> True | RationalV p q \<Rightarrow> q \<noteq> 0 | _ \<Rightarrow> False)"

definition numerator :: "ValueBase \<Rightarrow> int" where
  "numerator v = (case v of IntegerV n \<Rightarrow> n | RationalV p q \<Rightarrow> p | _ \<Rightarrow> 0)"

definition denominator :: "ValueBase \<Rightarrow> int" where
  "denominator v = (case v of RationalV p q \<Rightarrow> q | _ \<Rightarrow> 1)"

definition rat_of :: "ValueBase \<Rightarrow> rat" where
  "rat_of v = of_int (numerator v) / of_int (denominator v)"

text \<open>\<open>exact r x\<close>: the object \<open>r\<close> is the number \<open>x\<close> in normal form.\<close>

definition exact :: "ValueBase \<Rightarrow> rat \<Rightarrow> bool" where
  "exact r x \<longleftrightarrow> numeric r \<and> normalized r \<and> rat_of r = x"

definition is_integer :: "ValueBase \<Rightarrow> bool" where
  "is_integer v = (case v of IntegerV n \<Rightarrow> True | _ \<Rightarrow> False)"

definition value_of :: "addr res \<Rightarrow> ValueBase option" where
  "value_of r = (case r of (Inr a, env, s) \<Rightarrow> Some (heap s ! a) | _ \<Rightarrow> None)"

definition error_of :: "addr res \<Rightarrow> error option" where
  "error_of r = (case r of (Inl e, env, s) \<Rightarrow> Some e | _ \<Rightarrow> None)"

definition returned :: "(error + addr) \<times> state \<Rightarrow> ValueBase option" where
  "returned r = (case r of (Inr a, s) \<Rightarrow> Some (heap s ! a) | _ \<Rightarrow> None)"

definition thrown :: "(error + addr) \<times> state \<Rightarrow> error option" where
  "thrown r = (case r of (Inl e, s) \<Rightarrow> Some e | _ \<Rightarrow> None)"

text \<open>
  What fits: an \<open>int\<close> other than \<open>INT_MIN\<close>, so that its negation is an \<open>int\<close> as
  well. \<open>add_fits\<close>, \<open>sub_fits\<close>, \<open>mul_fits\<close> and \<open>div_fits\<close>: every product, sum
  and difference that the helper forms from the operands \<open>a/b\<close> and \<open>c/d\<close> fits, an
  Integer counting as a Rational with the denominator 1.
\<close>

definition fits :: "int \<Rightarrow> bool" where
  "fits x \<longleftrightarrow> - INT_MAX \<le> x \<and> x \<le> INT_MAX"

definition add_fits :: "ValueBase \<Rightarrow> ValueBase \<Rightarrow> bool" where
  "add_fits v1 v2 \<longleftrightarrow>
     fits (numerator v1 * denominator v2) \<and> fits (numerator v2 * denominator v1)
     \<and> fits (numerator v1 * denominator v2 + numerator v2 * denominator v1)
     \<and> fits (denominator v1 * denominator v2)"

definition sub_fits :: "ValueBase \<Rightarrow> ValueBase \<Rightarrow> bool" where
  "sub_fits v1 v2 \<longleftrightarrow>
     fits (numerator v1 * denominator v2) \<and> fits (numerator v2 * denominator v1)
     \<and> fits (numerator v1 * denominator v2 - numerator v2 * denominator v1)
     \<and> fits (denominator v1 * denominator v2)"

definition mul_fits :: "ValueBase \<Rightarrow> ValueBase \<Rightarrow> bool" where
  "mul_fits v1 v2 \<longleftrightarrow>
     fits (numerator v1 * numerator v2) \<and> fits (denominator v1 * denominator v2)"

definition div_fits :: "ValueBase \<Rightarrow> ValueBase \<Rightarrow> bool" where
  "div_fits v1 v2 \<longleftrightarrow>
     fits (numerator v1 * denominator v2) \<and> fits (denominator v1 * numerator v2)"


fun loop_fits ::
  "(ValueBase \<Rightarrow> ValueBase \<Rightarrow> bool) \<Rightarrow> (ValueBase \<Rightarrow> ValueBase \<Rightarrow> error + ValueBase) \<Rightarrow>
   ValueBase \<Rightarrow> ValueBase list \<Rightarrow> bool" where
  "loop_fits fit f result [] = True"
| "loop_fits fit f result (v # vs) =
     (fit result v
      \<and> (case f result v of Inl e \<Rightarrow> True | Inr result1 \<Rightarrow> loop_fits fit f result1 vs))"

fun var_fits :: "variadic_op \<Rightarrow> ValueBase list \<Rightarrow> bool" where
  "var_fits PlusVar (v # vs) = loop_fits add_fits addValues v vs"
| "var_fits MinusVar [v] = fits (numerator v)"
| "var_fits MinusVar (v # vs) = loop_fits sub_fits subtractValues v vs"
| "var_fits MultVar (v # vs) = loop_fits mul_fits multiplyValues v vs"
| "var_fits DivVar [v] = div_fits (IntegerV 1) v"
| "var_fits DivVar (v # vs) = loop_fits div_fits divideValues v vs"
| "var_fits _ vs = True"

text \<open>
  The variadic arithmetic operators as the spec words them, on the numbers the arguments
  stand for, and what it means for an operator's outcome to agree with that: the same
  error, or an Integer or Rational that stands for the same number.
\<close>

definition numbers :: "state \<Rightarrow> addr list \<Rightarrow> bool" where
  "numbers s args \<longleftrightarrow> (\<forall>a \<in> set args. a < length (heap s) \<and> numeric (heap s ! a))"

definition agrees :: "(error + addr) \<times> state \<Rightarrow> error + rat \<Rightarrow> bool" where
  "agrees r spec =
     (case spec of
        Inl e \<Rightarrow> thrown r = Some e
      | Inr x \<Rightarrow> (case returned r of None \<Rightarrow> False | Some ob \<Rightarrow> numeric ob \<and> rat_of ob = x))"

fun plus_spec :: "rat list \<Rightarrow> error + rat" where
  "plus_spec [] = Inr 0"
| "plus_spec (x # xs) = Inr (foldl (+) x xs)"

fun mult_spec :: "rat list \<Rightarrow> error + rat" where
  "mult_spec [] = Inr 1"
| "mult_spec (x # xs) = Inr (foldl (*) x xs)"

fun minus_spec :: "rat list \<Rightarrow> error + rat" where
  "minus_spec [] = Inl (RuntimeError ''Wrong number of arguments for -'')"
| "minus_spec [x] = Inr (- x)"
| "minus_spec (x # xs) = Inr (foldl (-) x xs)"

fun div_spec :: "rat list \<Rightarrow> error + rat" where
  "div_spec [] = Inl (RuntimeError ''Wrong number of arguments for /'')"
| "div_spec [x] = (if x = 0 then Inl (RuntimeError ''Division by zero'') else Inr (1 / x))"
| "div_spec (x # xs) =
     (if 0 \<in> set xs then Inl (RuntimeError ''Division by zero'') else Inr (foldl (/) x xs))"

text \<open>
  \<open>eq?\<close> as the spec words it: the outcome of the comparison by value, or \<open>None\<close>
  where the spec compares identity.
\<close>

definition by_value :: "ValueBase \<Rightarrow> ValueBase \<Rightarrow> bool option" where
  "by_value v1 v2 =
     (case (v1, v2) of
        (IntegerV n1, IntegerV n2) \<Rightarrow> Some (n1 = n2)
      | (BooleanV b1, BooleanV b2) \<Rightarrow> Some (b1 = b2)
      | (SymbolV x1, SymbolV x2) \<Rightarrow> Some (x1 = x2)
      | (NullV, NullV) \<Rightarrow> Some True
      | (VoidV, VoidV) \<Rightarrow> Some True
      | _ \<Rightarrow> None)"

definition compared_by_value :: "ValueBase \<Rightarrow> bool" where
  "compared_by_value v =
     (case v of IntegerV n \<Rightarrow> True | BooleanV b \<Rightarrow> True | SymbolV x \<Rightarrow> True
      | NullV \<Rightarrow> True | VoidV \<Rightarrow> True | _ \<Rightarrow> False)"

text \<open>
  \<open>run_while keep ev es env s\<close>: the operands \<open>es\<close>, evaluated in order from \<open>env\<close> and
  \<open>s\<close>, each return a value that satisfies \<open>keep\<close>, and leave the environment and
  state it gives.
\<close>

fun run_while ::
  "(ValueBase \<Rightarrow> bool) \<Rightarrow> evaluator \<Rightarrow> Expr list \<Rightarrow> Assoc \<Rightarrow> state \<Rightarrow> (Assoc \<times> state) option" where
  "run_while keep ev [] env s = Some (env, s)"
| "run_while keep ev (e # es) env s =
     (case ev e env s of
        (Inr v, env1, s1) \<Rightarrow> if keep (heap s1 ! v) then run_while keep ev es env1 s1 else None
      | (Inl er, env1, s1) \<Rightarrow> None)"

definition truthy :: "ValueBase \<Rightarrow> bool" where
  "truthy v \<longleftrightarrow> v \<noteq> BooleanV False"

text \<open>
  \<open>skip_clauses ev clauses env s\<close>: \<open>cond\<close> passes over every clause of \<open>clauses\<close>,
  each empty or with a test that is not \<open>Var "else"\<close> and returns \<open>#f\<close>, and the tests
  leave the environment and state it gives.
\<close>

fun skip_clauses ::
  "evaluator \<Rightarrow> Expr list list \<Rightarrow> Assoc \<Rightarrow> state \<Rightarrow> (Assoc \<times> state) option" where
  "skip_clauses ev [] env s = Some (env, s)"
| "skip_clauses ev ([] # clauses) env s = skip_clauses ev clauses env s"
| "skip_clauses ev ((test # body) # clauses) env s =
     (if test = Var ''else'' then None
      else case ev test env s of
          (Inr v, env1, s1) \<Rightarrow>
            if heap s1 ! v = BooleanV False then skip_clauses ev clauses env1 s1 else None
        | (Inl er, env1, s1) \<Rightarrow> None)"

text \<open>
  The environment after binding \<open>names\<close>, in order, to the cells \<open>base\<close>, \<open>base + 1\<close>,
  and so on: the last name is the innermost link.
\<close>

definition bound_env :: "string list \<Rightarrow> nat \<Rightarrow> Assoc \<Rightarrow> Assoc" where
  "bound_env names base env = rev (zip names [base ..< base + length names]) @ env"

text \<open>
  The arities as the spec lists them, by the type the primitive table gives a name:
  the primitives that take a fixed number of arguments, the ones that take any number
  (with the node they build), and the arithmetic and comparison primitives (with their
  binary and variadic nodes).
\<close>

fun fixed_arity :: "ExprType \<Rightarrow> nat option" where
  "fixed_arity E_MODULO = Some 2"
| "fixed_arity E_EXPT = Some 2"
| "fixed_arity E_CONS = Some 2"
| "fixed_arity E_SETCAR = Some 2"
| "fixed_arity E_SETCDR = Some 2"
| "fixed_arity E_EQQ = Some 2"
| "fixed_arity E_CAR = Some 1"
| "fixed_arity E_CDR = Some 1"
| "fixed_arity E_NOT = Some 1"
| "fixed_arity E_BOOLQ = Some 1"
| "fixed_arity E_INTQ = Some 1"
| "fixed_arity E_NULLQ = Some 1"
| "fixed_arity E_PAIRQ = Some 1"
| "fixed_arity E_PROCQ = Some 1"
| "fixed_arity E_SYMBOLQ = Some 1"
| "fixed_arity E_LISTQ = Some 1"
| "fixed_arity E_STRINGQ = Some 1"
| "fixed_arity E_DISPLAY = Some 1"
| "fixed_arity E_VOID = Some 0"
| "fixed_arity E_EXIT = Some 0"
| "fixed_arity _ = None"

fun any_arity :: "ExprType \<Rightarrow> (Expr list \<Rightarrow> Expr) option" where
  "any_arity E_LIST = Some (Variadic ListFunc)"
| "any_arity E_AND = Some AndVar"
| "any_arity E_OR = Some OrVar"
| "any_arity _ = None"

fun two_or_many :: "ExprType \<Rightarrow> (binary_op \<times> variadic_op) option" where
  "two_or_many E_PLUS = Some (Plus_op, PlusVar)"
| "two_or_many E_MINUS = Some (Minus, MinusVar)"
| "two_or_many E_MUL = Some (Mult, MultVar)"
| "two_or_many E_DIV = Some (Div, DivVar)"
| "two_or_many E_LT = Some (Less, LessVar)"
| "two_or_many E_LE = Some (LessEq, LessEqVar)"
| "two_or_many E_EQ = Some (Equal, EqualVar)"
| "two_or_many E_GE = Some (GreaterEq, GreaterEqVar)"
| "two_or_many E_GT = Some (Greater, GreaterVar)"
| "two_or_many _ = None"






definition grows :: "state \<Rightarrow> state \<Rightarrow> bool" where
  "grows s s1 \<longleftrightarrow> length (heap s) \<le> length (heap s1) \<and> length (cells s) \<le> length (cells s1)"



definition in_heap :: "nat \<Rightarrow> addr \<Rightarrow> bool" where
  "in_heap hl a \<longleftrightarrow> a < hl"



definition scalar :: "ValueBase \<Rightarrow> bool" where
  "scalar ob =
     (case ob of
        RationalV p q \<Rightarrow> 1 < q \<and> gcd \<bar>p\<bar> q = 1
      | PairV a d \<Rightarrow> False
      | ProcedureV ps body cenv \<Rightarrow> False
      | _ \<Rightarrow> True)"



definition finishes :: "'a res \<Rightarrow> bool" where
  "finishes r \<longleftrightarrow> fst r \<noteq> Inl OutOfFuel"


section \<open>Exponentiation\<close>

lemma square_not_2_31: "b * b \<noteq> (2147483648::int)"
proof -
  have sq: "b * b = \<bar>b\<bar> * \<bar>b\<bar>" by (simp add: abs_mult_self_eq)
  consider "\<bar>b\<bar> \<le> 46340" | "46341 \<le> \<bar>b\<bar>" by linarith
  then show ?thesis
  proof cases
    case 1
    then have "\<bar>b\<bar> * \<bar>b\<bar> \<le> 46340 * 46340" by (intro mult_mono) auto
    with sq show ?thesis by simp
  next
    case 2
    then have "46341 * 46341 \<le> \<bar>b\<bar> * \<bar>b\<bar>" by (intro mult_mono) auto
    with sq show ?thesis by simp
  qed
qed

lemma grow_out: 
  assumes "\<not> in_int r" "1 \<le> m"
  shows "\<not> in_int (r * m)"
proof -
  consider "r > INT_MAX" | "r < INT_MIN" using assms(1) by (auto simp: in_int_def)
  then show ?thesis
  proof cases
    case 1
    then have "0 < r" by (simp add: INT_MAX_def)
    then have "r * 1 \<le> r * m" using assms(2) by (intro mult_left_mono) auto
    with 1 show ?thesis by (simp add: in_int_def)
  next
    case 2
    then have "r < 0" by (simp add: INT_MIN_def)
    then have "r * m \<le> r * 1" using assms(2) by (intro mult_left_mono_neg) auto
    with 2 show ?thesis by (simp add: in_int_def)
  qed
qed

lemma big_factor:
  assumes "r \<noteq> 0" "2147483648 < m"
  shows "\<not> in_int (r * m)"
proof (cases "0 < r")
  case True
  then have "1 * m \<le> r * m" using assms(2) by (intro mult_right_mono) auto
  then have "m \<le> r * m" by simp
  with assms(2) show ?thesis unfolding in_int_def INT_MAX_def by linarith
next
  case False
  with assms(1) have "r \<le> - 1" by simp
  then have "r * m \<le> (- 1) * m" using assms(2) by (intro mult_right_mono) auto
  then have "r * m \<le> - m" by simp
  with assms(2) show ?thesis unfolding in_int_def INT_MIN_def by linarith
qed

lemma power_split:
  assumes "0 < (e::int)"
  shows "(b::int) ^ nat e = (if e mod 2 = 1 then b else 1) * (b * b) ^ nat (e div 2)"
proof -
  have nn: "0 \<le> e div 2" "0 \<le> e mod 2" using assms by simp_all
  have "nat e = nat (2 * (e div 2) + e mod 2)" by simp
  also have "\<dots> = nat (2 * (e div 2)) + nat (e mod 2)"
    using nn by (intro nat_add_distrib) simp_all
  also have "nat (2 * (e div 2)) = 2 * nat (e div 2)"
    by (simp add: nat_mult_distrib)
  finally have e: "nat e = 2 * nat (e div 2) + nat (e mod 2)" .
  have "b ^ nat e = b ^ nat (e mod 2) * (b ^ 2) ^ nat (e div 2)"
    by (subst e) (simp add: power_add power_mult)
  moreover have "e mod 2 = 0 \<or> e mod 2 = 1" by presburger
  ultimately show ?thesis by (auto simp: power2_eq_square)
qed

lemma smod2: "0 < (e::int) \<Longrightarrow> e smod 2 = e mod 2"
  by (simp add: signed_modulo_int_def sgn_if)
lemma sdiv2: "0 < (e::int) \<Longrightarrow> e sdiv 2 = e div 2"
  by (simp add: signed_divide_int_def sgn_if)

lemma expt_loop_step:
  assumes "0 < expn"
  shows "expt_loop result b expn =
    (if expn mod 2 = 1 \<and> \<not> in_int (result * b)
       then Inl (RuntimeError ''Integer overflow in expt'')
     else if \<not> in_int (b * b) \<and> expn > 1 then Inl (RuntimeError ''Integer overflow in expt'')
     else expt_loop (if expn mod 2 = 1 then result * b else result) (b * b) (expn div 2))"
  using assms
  by (subst expt_loop.simps) (auto simp: smod2 sdiv2 in_int_def Let_def)

lemma expt_loop_correct:
  assumes "0 \<le> e" "in_int r" "r = 0 \<longrightarrow> b = 0"
  shows "expt_loop r b e =
     (if in_int (r * b ^ nat e) then Inr (r * b ^ nat e)
      else Inl (RuntimeError ''Integer overflow in expt''))"
  using assms
proof (induction "nat e" arbitrary: r b e rule: less_induct)
  case less
  show ?case
  proof (cases "e > 0")
    case False
    with less.prems show ?thesis by (simp add: expt_loop.simps)
  next
    case True
    define odd where "odd = (e mod 2 = 1)"
    define r1 where "r1 = (if odd then r * b else r)"
    define k where "k = nat (e div 2)"
    have total: "r * b ^ nat e = r1 * (b * b) ^ k"
      using power_split [OF True, of b] by (simp add: r1_def odd_def k_def)
    have pos: "1 \<le> (b * b) ^ k" if "b \<noteq> 0"
    proof -
      have "0 < b * b" using that by (auto simp: zero_less_mult_iff)
      then have "1 \<le> b * b" by linarith
      then show ?thesis by (rule one_le_power)
    qed
    have step: "expt_loop r b e =
        (if odd \<and> \<not> in_int r1 then Inl (RuntimeError ''Integer overflow in expt'')
         else if \<not> in_int (b * b) \<and> e > 1 then Inl (RuntimeError ''Integer overflow in expt'')
         else expt_loop r1 (b * b) (e div 2))"
      using expt_loop_step [OF True, of r b] by (simp add: odd_def r1_def)
    have r1_in: "\<not> odd \<Longrightarrow> in_int r1"
      using less.prems by (simp add: r1_def)
    have nz: "b \<noteq> 0 \<Longrightarrow> r1 \<noteq> 0"
      using less.prems by (auto simp: r1_def)
    consider (a) "odd" "\<not> in_int r1"
      | (b) "in_int r1" "\<not> in_int (b * b)" "e > 1"
      | (c) "in_int r1" "\<not> (\<not> in_int (b * b) \<and> e > 1)"
      using r1_in by blast
    then show ?thesis
    proof cases
      case a
      then have "b \<noteq> 0"
        using less.prems by (auto simp: r1_def in_int_def INT_MIN_def INT_MAX_def)
      then have "\<not> in_int (r1 * (b * b) ^ k)"
        using a pos by (intro grow_out) auto
      with a step total show ?thesis by simp
    next
      case b
      then have b0: "b \<noteq> 0" by (auto simp: in_int_def INT_MIN_def INT_MAX_def)
      have "0 \<le> b * b" by simp
      with b have "2147483648 \<le> b * b" by (simp add: in_int_def INT_MIN_def INT_MAX_def)
      with square_not_2_31 [of b] have big: "2147483648 < b * b" by linarith
      have "1 \<le> k" using b by (simp add: k_def)
      then have "(b * b) ^ 1 \<le> (b * b) ^ k"
        using big by (intro power_increasing) auto
      with big have "2147483648 < (b * b) ^ k" by simp
      then have "\<not> in_int (r1 * (b * b) ^ k)"
        using nz [OF b0] by (intro big_factor) auto
      with b step total show ?thesis by auto
    next
      case c
      have call: "expt_loop r b e = expt_loop r1 (b * b) (e div 2)"
        using c step by auto
      have "expt_loop r1 (b * b) (e div 2) =
          (if in_int (r1 * (b * b) ^ nat (e div 2)) then Inr (r1 * (b * b) ^ nat (e div 2))
           else Inl (RuntimeError ''Integer overflow in expt''))"
      proof (rule less.hyps)
        show "nat (e div 2) < nat e" using True by simp
        show "0 \<le> e div 2" using True by simp
        show "in_int r1" using c by simp
        show "r1 = 0 \<longrightarrow> b * b = 0" using nz by auto
      qed
      then show ?thesis
        using call total by (simp add: k_def)
    qed
  qed
qed

lemma Expt_integers:
  "Expt_evalRator (IntegerV base) (IntegerV exponent) =
     (if exponent < 0 then Inl (RuntimeError ''Negative exponent not supported for integers'')
      else if base = 0 \<and> exponent = 0 then Inl (RuntimeError ''0^0 is undefined'')
      else if \<not> in_int (base ^ nat exponent) then Inl (RuntimeError ''Integer overflow in expt'')
      else Inr (IntegerV (base ^ nat exponent)))"
proof -
  have "0 \<le> exponent \<Longrightarrow> expt_loop 1 base exponent =
     (if in_int (1 * base ^ nat exponent) then Inr (1 * base ^ nat exponent)
      else Inl (RuntimeError ''Integer overflow in expt''))"
    by (rule expt_loop_correct) (auto simp: in_int_def INT_MIN_def INT_MAX_def)
  then show ?thesis by auto
qed

lemma Expt_other:
  "\<not> (is_integer v1 \<and> is_integer v2) \<Longrightarrow> Expt_evalRator v1 v2 = Inl (RuntimeError ''Wrong typename'')"
  by (cases v1; cases v2) (simp_all add: is_integer_def)

lemma fresh_res_eq [simp]:
  "fresh_res ob env s = (Inr (length (heap s)), env, s\<lparr>heap := heap s @ [ob]\<rparr>)"
  by (simp add: fresh_res_def new_value_def)

lemma fresh_Inr [simp]:
  "fresh (Inr ob) s = (Inr (length (heap s)), s\<lparr>heap := heap s @ [ob]\<rparr>)"
  by (simp add: fresh_def new_value_def)

lemma fresh_Inl [simp]: "fresh (Inl e) s = (Inl e, s)"
  by (simp add: fresh_def)

lemma eval_2 [simp]: "eval P R (Suc (Suc 0)) e env s = Expr_eval P R (Expr_eval P R (eval P R 0)) e env s"
proof -
  have "eval P R (Suc 0) = Expr_eval P R (eval P R 0)" by (intro ext) simp
  then show ?thesis by simp
qed

text \<open>
  C5. \<open>expt\<close> on two Integers: a negative exponent is an error, so is \<open>0^0\<close>, a power
  outside the 32-bit signed range is the error "Integer overflow in expt", and every other
  case returns the exact power. Any operand that is not an Integer is the error "Wrong
  typename". \<open>(expt 2 10)\<close> evaluates to 1024.
\<close>

theorem Expt_evalRator_spec:
  "Expt_evalRator (IntegerV base) (IntegerV exponent) =
     (if exponent < 0 then Inl (RuntimeError ''Negative exponent not supported for integers'')
      else if base = 0 \<and> exponent = 0 then Inl (RuntimeError ''0^0 is undefined'')
      else if \<not> in_int (base ^ nat exponent) then Inl (RuntimeError ''Integer overflow in expt'')
      else Inr (IntegerV (base ^ nat exponent)))
   \<and> (\<not> (is_integer v1 \<and> is_integer v2) \<longrightarrow>
        Expt_evalRator v1 v2 = Inl (RuntimeError ''Wrong typename''))
   \<and> value_of (eval P R (Suc (Suc 0)) (Binary Expt (Fixnum 2) (Fixnum 10)) env s)
       = Some (IntegerV 1024)"
proof (intro conjI impI)
  show "Expt_evalRator (IntegerV base) (IntegerV exponent) =
     (if exponent < 0 then Inl (RuntimeError ''Negative exponent not supported for integers'')
      else if base = 0 \<and> exponent = 0 then Inl (RuntimeError ''0^0 is undefined'')
      else if \<not> in_int (base ^ nat exponent) then Inl (RuntimeError ''Integer overflow in expt'')
      else Inr (IntegerV (base ^ nat exponent)))"
    by (rule Expt_integers)
  show "Expt_evalRator v1 v2 = Inl (RuntimeError ''Wrong typename'')"
    if "\<not> (is_integer v1 \<and> is_integer v2)"
    using that by (rule Expt_other)
  have "Expt_evalRator (IntegerV 2) (IntegerV 10) = Inr (IntegerV 1024)"
    by (simp add: Expt_integers in_int_def INT_MIN_def INT_MAX_def del: Expt_evalRator.simps)
  then show "value_of (eval P R (Suc (Suc 0)) (Binary Expt (Fixnum 2) (Fixnum 10)) env s)
       = Some (IntegerV 1024)"
    by (simp add: value_of_def nth_append del: Expt_evalRator.simps)
qed

theorem Expt_evalRator_spec_witness:
  "Expt_evalRator (IntegerV (- 2)) (IntegerV 31) = Inr (IntegerV (- 2147483648))
   \<and> Expt_evalRator (IntegerV 2) (IntegerV 31) = Inl (RuntimeError ''Integer overflow in expt'')
   \<and> Expt_evalRator (IntegerV 0) (IntegerV 0) = Inl (RuntimeError ''0^0 is undefined'')
   \<and> Expt_evalRator (IntegerV 2) (IntegerV (- 1))
       = Inl (RuntimeError ''Negative exponent not supported for integers'')
   \<and> \<not> (is_integer (StringV ''a'') \<and> is_integer (IntegerV 1))
   \<and> Expt_evalRator (StringV ''a'') (IntegerV 1) = Inl (RuntimeError ''Wrong typename'')"
  using Expt_evalRator_spec [of "- 2" 31 "StringV ''a''" "IntegerV 1"]
    Expt_evalRator_spec [of 2 31] Expt_evalRator_spec [of 0 0] Expt_evalRator_spec [of 2 "- 1"]
  by (simp add: in_int_def INT_MIN_def INT_MAX_def is_integer_def del: Expt_evalRator.simps)

section \<open>Rational arithmetic\<close>

lemma wrap_fits: "fits x \<Longrightarrow> wrap x = x"
  by (simp add: fits_def wrap_def INT_MAX_def)

lemma fits_neg: "fits (- x) \<longleftrightarrow> fits x"
  by (auto simp: fits_def)

lemma fits_quotient:
  assumes "fits (n * g)" and "g \<noteq> 0"
  shows "fits (n::int)"
proof -
  have "1 \<le> \<bar>g\<bar>" using assms(2) by simp
  then have "\<bar>n\<bar> * 1 \<le> \<bar>n\<bar> * \<bar>g\<bar>" by (intro mult_left_mono) simp_all
  then have "\<bar>n\<bar> \<le> \<bar>n * g\<bar>" by (simp add: abs_mult)
  moreover have "\<bar>n * g\<bar> \<le> INT_MAX" using assms(1) unfolding fits_def by linarith
  ultimately have "\<bar>n\<bar> \<le> INT_MAX" by linarith
  then show ?thesis unfolding fits_def by linarith
qed

lemma int_add_fits: "fits (a + b) \<Longrightarrow> int_add a b = a + b"
  by (simp add: int_add_def wrap_fits)

lemma int_sub_fits: "fits (a - b) \<Longrightarrow> int_sub a b = a - b"
  by (simp add: int_sub_def wrap_fits)

lemma int_mul_fits: "fits (a * b) \<Longrightarrow> int_mul a b = a * b"
  by (simp add: int_mul_def wrap_fits)

lemma int_neg_fits: "fits a \<Longrightarrow> int_neg a = - a"
  by (simp add: int_neg_def wrap_fits fits_neg)

lemma sdiv_exact: "l dvd k \<Longrightarrow> k sdiv l = k div (l::int)"
  by (simp add: signed_divide_int_eq_divide_int)

lemma reduce_correct:
  assumes "den \<noteq> 0" and "fits num" and "fits den"
  shows "numeric (reduce num den) \<and> normalized (reduce num den)
     \<and> rat_of (reduce num den) = of_int num / of_int den"
proof -
  define g where "g = gcd num den"
  have gpos: "0 < g" using assms(1) by (simp add: g_def)
  define n1 where "n1 = num div g"
  define d1 where "d1 = den div g"
  have num: "num = n1 * g" and den: "den = d1 * g"
    by (simp_all add: n1_def d1_def g_def)
  have cop: "coprime n1 d1"
    unfolding n1_def d1_def g_def using assms(1) by (intro div_gcd_coprime) simp
  have d1nz: "d1 \<noteq> 0" using den assms(1) by auto
  have f1: "fits n1" using assms(2) gpos unfolding num by (intro fits_quotient [of n1 g]) simp_all
  have f2: "fits d1" using assms(3) gpos unfolding den by (intro fits_quotient [of d1 g]) simp_all
  define n2 where "n2 = (if d1 < 0 then - n1 else n1)"
  define d2 where "d2 = (if d1 < 0 then - d1 else d1)"
  have d2pos: "0 < d2" using d1nz by (simp add: d2_def)
  have cop2: "gcd \<bar>n2\<bar> d2 = 1" using cop by (simp add: n2_def d2_def coprime_iff_gcd_eq_1 [symmetric])
  have val: "(of_int n2 :: rat) / of_int d2 = of_int num / of_int den"
    using gpos d1nz by (simp add: n2_def d2_def num den)
  have "num sdiv g = n1" unfolding n1_def g_def by (rule sdiv_exact) simp
  then have s1: "int_div num g = n1" using f1 by (simp add: int_div_def wrap_fits)
  have "den sdiv g = d1" unfolding d1_def g_def by (rule sdiv_exact) simp
  then have s2: "int_div den g = d1" using f2 by (simp add: int_div_def wrap_fits)
  have "gcd_c num den = g" by (simp add: gcd_c_def g_def)
  then have red: "reduce num den = (if d2 = 1 then IntegerV n2 else RationalV n2 d2)"
    using gpos f1 f2 by (simp add: reduce_def Let_def s1 s2 n2_def d2_def int_neg_fits)
  show ?thesis
    using d2pos cop2 val
    by (auto simp: red numeric_def normalized_def rat_of_def numerator_def denominator_def)
qed

lemma exact_reduce:
  "den \<noteq> 0 \<Longrightarrow> fits num \<Longrightarrow> fits den \<Longrightarrow> of_int num / of_int den = x \<Longrightarrow> exact (reduce num den) x"
  using reduce_correct [of den num] by (simp add: exact_def)

lemma exact_Integer: "of_int n = x \<Longrightarrow> exact (IntegerV n) x"
  by (simp add: exact_def numeric_def normalized_def rat_of_def numerator_def denominator_def)

lemma numeric_cases:
  assumes "numeric v"
  obtains (Int) n where "v = IntegerV n" | (Rat) p q where "v = RationalV p q" "q \<noteq> 0"
  using assms by (cases v) (auto simp: numeric_def)

lemma rat_of_simps [simp]:
  "rat_of (IntegerV n) = of_int n"
  "rat_of (RationalV p q) = of_int p / of_int q"
  by (simp_all add: rat_of_def numerator_def denominator_def)

lemma numerator_simps [simp]:
  "numerator (IntegerV n) = n" "numerator (RationalV p q) = p"
  by (simp_all add: numerator_def)

lemma denominator_simps [simp]:
  "denominator (IntegerV n) = 1" "denominator (RationalV p q) = q"
  by (simp_all add: denominator_def)

lemma addValues_exact:
  assumes "numeric v1" "numeric v2" "add_fits v1 v2"
  shows "\<exists>r. addValues v1 v2 = Inr r \<and> exact r (rat_of v1 + rat_of v2)"
  using assms(1)
proof (cases rule: numeric_cases)
  case (Int n1)
  show ?thesis using assms(2)
  proof (cases rule: numeric_cases)
    case (Int n2)
    with \<open>v1 = IntegerV n1\<close> assms(3) show ?thesis
      by (simp add: add_fits_def int_add_fits exact_Integer)
  next
    case (Rat p2 q2)
    with \<open>v1 = IntegerV n1\<close> assms(3) show ?thesis
      by (simp add: add_fits_def int_add_fits int_mul_fits exact_reduce field_simps)
  qed
next
  case (Rat p1 q1)
  show ?thesis using assms(2)
  proof (cases rule: numeric_cases)
    case (Int n2)
    with Rat assms(3) show ?thesis
      by (simp add: add_fits_def int_add_fits int_mul_fits exact_reduce field_simps)
  next
    case Rat2: (Rat p2 q2)
    with Rat assms(3) show ?thesis
      by (simp add: add_fits_def int_add_fits int_mul_fits exact_reduce field_simps)
  qed
qed

lemma subtractValues_exact:
  assumes "numeric v1" "numeric v2" "sub_fits v1 v2"
  shows "\<exists>r. subtractValues v1 v2 = Inr r \<and> exact r (rat_of v1 - rat_of v2)"
  using assms(1)
proof (cases rule: numeric_cases)
  case (Int n1)
  show ?thesis using assms(2)
  proof (cases rule: numeric_cases)
    case (Int n2)
    with \<open>v1 = IntegerV n1\<close> assms(3) show ?thesis
      by (simp add: sub_fits_def int_sub_fits exact_Integer)
  next
    case (Rat p2 q2)
    with \<open>v1 = IntegerV n1\<close> assms(3) show ?thesis
      by (simp add: sub_fits_def int_sub_fits int_mul_fits exact_reduce field_simps)
  qed
next
  case (Rat p1 q1)
  show ?thesis using assms(2)
  proof (cases rule: numeric_cases)
    case (Int n2)
    with Rat assms(3) show ?thesis
      by (simp add: sub_fits_def int_sub_fits int_mul_fits exact_reduce field_simps)
  next
    case Rat2: (Rat p2 q2)
    with Rat assms(3) show ?thesis
      by (simp add: sub_fits_def int_sub_fits int_mul_fits exact_reduce field_simps)
  qed
qed

lemma multiplyValues_exact:
  assumes "numeric v1" "numeric v2" "mul_fits v1 v2"
  shows "\<exists>r. multiplyValues v1 v2 = Inr r \<and> exact r (rat_of v1 * rat_of v2)"
  using assms(1)
proof (cases rule: numeric_cases)
  case (Int n1)
  show ?thesis using assms(2)
  proof (cases rule: numeric_cases)
    case (Int n2)
    with \<open>v1 = IntegerV n1\<close> assms(3) show ?thesis
      by (simp add: mul_fits_def int_mul_fits exact_Integer)
  next
    case (Rat p2 q2)
    with \<open>v1 = IntegerV n1\<close> assms(3) show ?thesis
      by (simp add: mul_fits_def int_mul_fits exact_reduce field_simps)
  qed
next
  case (Rat p1 q1)
  show ?thesis using assms(2)
  proof (cases rule: numeric_cases)
    case (Int n2)
    with Rat assms(3) show ?thesis
      by (simp add: mul_fits_def int_mul_fits exact_reduce field_simps)
  next
    case Rat2: (Rat p2 q2)
    with Rat assms(3) show ?thesis
      by (simp add: mul_fits_def int_mul_fits exact_reduce field_simps)
  qed
qed

lemma divideValues_zero:
  assumes "numeric v1" "numeric v2"
  shows "divideValues v1 v2 = Inl (RuntimeError ''Division by zero'') \<longleftrightarrow> numerator v2 = 0"
  using assms by (cases v1; cases v2) (simp_all add: numeric_def)

lemma divideValues_exact:
  assumes "numeric v1" "numeric v2" "numerator v2 \<noteq> 0" "div_fits v1 v2"
  shows "\<exists>r. divideValues v1 v2 = Inr r \<and> exact r (rat_of v1 / rat_of v2)"
  using assms(1)
proof (cases rule: numeric_cases)
  case (Int n1)
  show ?thesis using assms(2)
  proof (cases rule: numeric_cases)
    case (Int n2)
    with \<open>v1 = IntegerV n1\<close> assms(3,4) show ?thesis
      by (simp add: div_fits_def exact_reduce)
  next
    case (Rat p2 q2)
    with \<open>v1 = IntegerV n1\<close> assms(3,4) show ?thesis
      by (simp add: div_fits_def int_mul_fits exact_reduce field_simps)
  qed
next
  case (Rat p1 q1)
  show ?thesis using assms(2)
  proof (cases rule: numeric_cases)
    case (Int n2)
    with Rat assms(3,4) show ?thesis
      by (simp add: div_fits_def int_mul_fits exact_reduce field_simps)
  next
    case Rat2: (Rat p2 q2)
    with Rat assms(3,4) show ?thesis
      by (simp add: div_fits_def int_mul_fits exact_reduce field_simps)
  qed
qed

lemma rat_of_zero: "numeric v \<Longrightarrow> rat_of v = 0 \<longleftrightarrow> numerator v = 0"
  by (cases v) (auto simp: numeric_def)

text \<open>
  C3, amended. Division of an Integer or Rational by an Integer or Rational (denominators
  not zero, which covers every normalized operand) throws "Division by zero" exactly when
  the numerator of the divisor is 0. When it is not, and the two products that the helper
  forms from \<open>a/b\<close> and \<open>c/d\<close>, \<open>a * d\<close> and \<open>b * c\<close>, fit, it returns the quotient in
  normal form: an Integer, or a Rational in lowest terms with a denominator above 1, the
  sign on the numerator. \<open>(/ 3 6)\<close> is 1/2 and \<open>(/ -3 6)\<close> is -1/2.
\<close>

theorem divideValues_spec:
  assumes "numeric v1" and "numeric v2"
  shows "(divideValues v1 v2 = Inl (RuntimeError ''Division by zero'') \<longleftrightarrow> numerator v2 = 0)
    \<and> (numerator v2 \<noteq> 0 \<and> div_fits v1 v2 \<longrightarrow>
         (\<exists>r. divideValues v1 v2 = Inr r \<and> numeric r \<and> normalized r
            \<and> rat_of r = rat_of v1 / rat_of v2))
    \<and> divideValues (IntegerV 3) (IntegerV 6) = Inr (RationalV 1 2)
    \<and> divideValues (IntegerV (- 3)) (IntegerV 6) = Inr (RationalV (- 1) 2)"
proof (intro conjI impI)
  show "divideValues v1 v2 = Inl (RuntimeError ''Division by zero'') \<longleftrightarrow> numerator v2 = 0"
    using assms by (rule divideValues_zero)
  show "\<exists>r. divideValues v1 v2 = Inr r \<and> numeric r \<and> normalized r
            \<and> rat_of r = rat_of v1 / rat_of v2" if "numerator v2 \<noteq> 0 \<and> div_fits v1 v2"
    using divideValues_exact [OF assms] that by (simp add: exact_def)
  show "divideValues (IntegerV 3) (IntegerV 6) = Inr (RationalV 1 2)"
    by code_simp
  show "divideValues (IntegerV (- 3)) (IntegerV 6) = Inr (RationalV (- 1) 2)"
    by code_simp
qed

theorem divideValues_spec_witness:
  "numeric (RationalV 1 2) \<and> numeric (RationalV (- 3) 4) \<and> numerator (RationalV (- 3) 4) \<noteq> 0
   \<and> div_fits (RationalV 1 2) (RationalV (- 3) 4)
   \<and> divideValues (RationalV 1 2) (RationalV (- 3) 4) = Inr (RationalV (- 2) 3)
   \<and> numeric (IntegerV 0) \<and> numerator (IntegerV 0) = 0
   \<and> divideValues (RationalV 1 2) (IntegerV 0) = Inl (RuntimeError ''Division by zero'')"
proof -
  have e: "divideValues (RationalV 1 2) (RationalV (- 3) 4) = Inr (RationalV (- 2) 3)"
    by code_simp
  have f: "div_fits (RationalV 1 2) (RationalV (- 3) 4)"
    by (simp add: div_fits_def fits_def INT_MAX_def)
  show ?thesis
    using divideValues_spec [of "RationalV 1 2" "RationalV (- 3) 4"]
      divideValues_spec [of "RationalV 1 2" "IntegerV 0"]
    by (simp add: numeric_def e f del: divideValues.simps)
qed

text \<open>
  C3 as stated fails where a product overflows: 1/65536 and 65536 are normalized, the
  denominator \<open>65536 * 65536\<close> is 0 in 32 bits, and the quotient returned is the Rational
  1/0. It fails on \<open>INT_MIN\<close> as well, whose negation is no \<open>int\<close>: -2147483648 divided
  by -1 is -2147483648.
\<close>

theorem divideValues_overflow:
  "numeric (RationalV 1 65536) \<and> normalized (RationalV 1 65536)
   \<and> numeric (IntegerV 65536) \<and> normalized (IntegerV 65536)
   \<and> in_int 1 \<and> in_int 65536 \<and> numerator (IntegerV 65536) \<noteq> 0
   \<and> divideValues (RationalV 1 65536) (IntegerV 65536) = Inr (RationalV 1 0)
   \<and> \<not> normalized (RationalV 1 0) \<and> \<not> numeric (RationalV 1 0)
   \<and> rat_of (RationalV 1 0) \<noteq> rat_of (RationalV 1 65536) / rat_of (IntegerV 65536)
   \<and> in_int (- 2147483648) \<and> in_int (- 1)
   \<and> divideValues (IntegerV (- 2147483648)) (IntegerV (- 1)) = Inr (IntegerV (- 2147483648))
   \<and> rat_of (IntegerV (- 2147483648)) \<noteq> rat_of (IntegerV (- 2147483648)) / rat_of (IntegerV (- 1))"
  by code_simp

section \<open>Variadic arithmetic\<close>

lemma exact_numeric: "exact r x \<Longrightarrow> numeric r"
  by (simp add: exact_def)

lemma fold_values_agrees:
  assumes f: "\<And>v1 v2. numeric v1 \<Longrightarrow> numeric v2 \<Longrightarrow> ok v2 \<Longrightarrow> fit v1 v2 \<Longrightarrow>
                \<exists>r. f v1 v2 = Inr r \<and> exact r (opr (rat_of v1) (rat_of v2))"
    and "a < length (heap s)" and "numeric (heap s ! a)" and "numbers s as"
    and "\<forall>x \<in> set as. ok (heap s ! x)"
    and "loop_fits fit f (heap s ! a) (map (\<lambda>x. heap s ! x) as)"
  shows "agrees (fold_values f a as s)
           (Inr (foldl opr (rat_of (heap s ! a)) (map (\<lambda>x. rat_of (heap s ! x)) as)))"
  using assms(2-)
proof (induction as arbitrary: a s)
  case Nil
  then show ?case by (simp add: agrees_def returned_def)
next
  case (Cons x xs)
  have x: "x < length (heap s)" "numeric (heap s ! x)" "ok (heap s ! x)"
    using Cons.prems by (simp_all add: numbers_def)
  have a: "numeric (heap s ! a)" using Cons.prems by simp
  have fit: "fit (heap s ! a) (heap s ! x)" using Cons.prems by simp
  obtain r where r: "f (heap s ! a) (heap s ! x) = Inr r"
    and ex: "exact r (opr (rat_of (heap s ! a)) (rat_of (heap s ! x)))"
    using f [OF a x(2) x(3) fit] by blast
  define s1 where "s1 = s\<lparr>heap := heap s @ [r]\<rparr>"
  have old: "\<And>i. i < length (heap s) \<Longrightarrow> heap s1 ! i = heap s ! i"
    by (simp add: s1_def nth_append)
  have new: "heap s1 ! length (heap s) = r" by (simp add: s1_def)
  have step: "fold_values f a (x # xs) s = fold_values f (length (heap s)) xs s1"
    by (simp add: r s1_def)
  have xs: "numbers s1 xs" "\<forall>y \<in> set xs. ok (heap s1 ! y)"
    using Cons.prems old by (auto simp: numbers_def s1_def)
  have same: "map (\<lambda>y. rat_of (heap s1 ! y)) xs = map (\<lambda>y. rat_of (heap s ! y)) xs"
    using Cons.prems old by (auto simp: numbers_def)
  have same2: "map (\<lambda>y. heap s1 ! y) xs = map (\<lambda>y. heap s ! y) xs"
    using Cons.prems old by (auto simp: numbers_def)
  have lf: "loop_fits fit f (heap s1 ! length (heap s)) (map (\<lambda>y. heap s1 ! y) xs)"
    using Cons.prems(5) by (simp add: r new same2)
  have "agrees (fold_values f (length (heap s)) xs s1)
          (Inr (foldl opr (rat_of (heap s1 ! length (heap s))) (map (\<lambda>y. rat_of (heap s1 ! y)) xs)))"
    using xs ex lf by (intro Cons.IH) (simp_all add: new exact_numeric, simp add: s1_def)
  then show ?case
    using ex by (simp add: step same new exact_def del: fold_values.simps)
qed

lemma fold_values_div_zero:
  assumes "a < length (heap s)" and "numeric (heap s ! a)" and "numbers s as"
    and "\<exists>x \<in> set as. numerator (heap s ! x) = 0"
    and "loop_fits div_fits divideValues (heap s ! a) (map (\<lambda>x. heap s ! x) as)"
  shows "thrown (fold_values divideValues a as s) = Some (RuntimeError ''Division by zero'')"
  using assms
proof (induction as arbitrary: a s)
  case Nil
  then show ?case by simp
next
  case (Cons x xs)
  have x: "x < length (heap s)" "numeric (heap s ! x)"
    using Cons.prems by (simp_all add: numbers_def)
  have a: "numeric (heap s ! a)" using Cons.prems by simp
  have fit: "div_fits (heap s ! a) (heap s ! x)" using Cons.prems by simp
  show ?case
  proof (cases "numerator (heap s ! x) = 0")
    case True
    then show ?thesis
      using divideValues_zero [OF a x(2)] by (simp add: thrown_def)
  next
    case False
    obtain r where r: "divideValues (heap s ! a) (heap s ! x) = Inr r"
      and ex: "exact r (rat_of (heap s ! a) / rat_of (heap s ! x))"
      using divideValues_exact [OF a x(2) False fit] by blast
    define s1 where "s1 = s\<lparr>heap := heap s @ [r]\<rparr>"
    have old: "\<And>i. i < length (heap s) \<Longrightarrow> heap s1 ! i = heap s ! i"
      by (simp add: s1_def nth_append)
    have new: "heap s1 ! length (heap s) = r" by (simp add: s1_def)
    have step: "fold_values divideValues a (x # xs) s = fold_values divideValues (length (heap s)) xs s1"
      by (simp add: r s1_def)
    have xs: "numbers s1 xs"
      using Cons.prems old by (auto simp: numbers_def s1_def)
    have zero: "\<exists>y \<in> set xs. numerator (heap s1 ! y) = 0"
      using Cons.prems False old by (auto simp: numbers_def)
    have same2: "map (\<lambda>y. heap s1 ! y) xs = map (\<lambda>y. heap s ! y) xs"
      using Cons.prems old by (auto simp: numbers_def)
    have lf: "loop_fits div_fits divideValues (heap s1 ! length (heap s)) (map (\<lambda>y. heap s1 ! y) xs)"
      using Cons.prems(5) by (simp add: r new same2)
    have "thrown (fold_values divideValues (length (heap s)) xs s1) = Some (RuntimeError ''Division by zero'')"
      using xs zero ex lf by (intro Cons.IH) (simp_all add: new exact_numeric, simp add: s1_def)
    then show ?thesis by (simp add: step del: fold_values.simps)
  qed
qed

lemma numbers_Cons: "numbers s (a # as) \<longleftrightarrow> a < length (heap s) \<and> numeric (heap s ! a) \<and> numbers s as"
  by (auto simp: numbers_def)

lemma PlusVar_agrees:
  assumes "numbers s args" and "var_fits PlusVar (map (\<lambda>a. heap s ! a) args)"
  shows "agrees (Variadic_evalRator PlusVar args s) (plus_spec (map (\<lambda>a. rat_of (heap s ! a)) args))"
proof (cases args)
  case Nil
  then show ?thesis by (simp add: agrees_def returned_def numeric_def)
next
  case (Cons a as)
  have "agrees (fold_values addValues a as s)
           (Inr (foldl (+) (rat_of (heap s ! a)) (map (\<lambda>x. rat_of (heap s ! x)) as)))"
    using assms Cons
    by (intro fold_values_agrees [where ok = "\<lambda>v. True" and fit = add_fits] addValues_exact)
       (simp_all add: numbers_Cons)
  with Cons show ?thesis by simp
qed

lemma MultVar_agrees:
  assumes "numbers s args" and "var_fits MultVar (map (\<lambda>a. heap s ! a) args)"
  shows "agrees (Variadic_evalRator MultVar args s) (mult_spec (map (\<lambda>a. rat_of (heap s ! a)) args))"
proof (cases args)
  case Nil
  then show ?thesis by (simp add: agrees_def returned_def numeric_def)
next
  case (Cons a as)
  have "agrees (fold_values multiplyValues a as s)
           (Inr (foldl (*) (rat_of (heap s ! a)) (map (\<lambda>x. rat_of (heap s ! x)) as)))"
    using assms Cons
    by (intro fold_values_agrees [where ok = "\<lambda>v. True" and fit = mul_fits] multiplyValues_exact)
       (simp_all add: numbers_Cons)
  with Cons show ?thesis by simp
qed

lemma negate_value:
  "numeric v \<Longrightarrow> fits (numerator v) \<Longrightarrow> \<exists>r. negate v = Inr r \<and> numeric r \<and> rat_of r = - rat_of v"
  by (cases v) (auto simp: numeric_def negate_def int_neg_fits)

lemma MinusVar_agrees:
  assumes "numbers s args" and "var_fits MinusVar (map (\<lambda>a. heap s ! a) args)"
  shows "agrees (Variadic_evalRator MinusVar args s) (minus_spec (map (\<lambda>a. rat_of (heap s ! a)) args))"
proof (cases args)
  case Nil
  then show ?thesis by (simp add: agrees_def thrown_def)
next
  case (Cons a as)
  show ?thesis
  proof (cases as)
    case Nil
    obtain r where "negate (heap s ! a) = Inr r" "numeric r" "rat_of r = - rat_of (heap s ! a)"
      using negate_value [of "heap s ! a"] assms Cons Nil by (auto simp: numbers_Cons)
    with Cons Nil show ?thesis by (simp add: agrees_def returned_def)
  next
    case Cons2: (Cons b bs)
    have "agrees (fold_values subtractValues a as s)
           (Inr (foldl (-) (rat_of (heap s ! a)) (map (\<lambda>x. rat_of (heap s ! x)) as)))"
      using assms Cons Cons2
      by (intro fold_values_agrees [where ok = "\<lambda>v. True" and fit = sub_fits] subtractValues_exact)
         (simp_all add: numbers_Cons)
    with Cons Cons2 show ?thesis by (simp del: fold_values.simps)
  qed
qed

lemma DivVar_agrees:
  assumes "numbers s args" and "var_fits DivVar (map (\<lambda>a. heap s ! a) args)"
  shows "agrees (Variadic_evalRator DivVar args s) (div_spec (map (\<lambda>a. rat_of (heap s ! a)) args))"
proof (cases args)
  case Nil
  then show ?thesis by (simp add: agrees_def thrown_def)
next
  case (Cons a as)
  have a: "a < length (heap s)" "numeric (heap s ! a)" and as: "numbers s as"
    using assms Cons by (simp_all add: numbers_Cons)
  show ?thesis
  proof (cases as)
    case Nil
    have one: "numeric (IntegerV 1)" by (simp add: numeric_def)
    have fit: "div_fits (IntegerV 1) (heap s ! a)" using assms(2) Cons Nil by simp
    show ?thesis
    proof (cases "numerator (heap s ! a) = 0")
      case True
      then have "divideValues (IntegerV 1) (heap s ! a) = Inl (RuntimeError ''Division by zero'')"
        using divideValues_zero [OF one a(2)] by simp
      then show ?thesis
        using Cons Nil a True
        by (simp add: agrees_def thrown_def new_value_def nth_append rat_of_zero)
    next
      case False
      obtain r where "divideValues (IntegerV 1) (heap s ! a) = Inr r"
        "exact r (rat_of (IntegerV 1) / rat_of (heap s ! a))"
        using divideValues_exact [OF one a(2) False fit] by blast
      then show ?thesis
        using Cons Nil a False
        by (simp add: agrees_def returned_def new_value_def nth_append rat_of_zero exact_def)
    qed
  next
    case Cons2: (Cons b bs)
    have lf: "loop_fits div_fits divideValues (heap s ! a) (map (\<lambda>x. heap s ! x) as)"
      using assms(2) Cons Cons2 by simp
    have zero_iff: "(0 \<in> set (map (\<lambda>x. rat_of (heap s ! x)) as)) \<longleftrightarrow> (\<exists>x \<in> set as. numerator (heap s ! x) = 0)"
      using as by (auto simp: numbers_def rat_of_zero image_iff)
    show ?thesis
    proof (cases "\<exists>x \<in> set as. numerator (heap s ! x) = 0")
      case True
      then have "thrown (fold_values divideValues a as s) = Some (RuntimeError ''Division by zero'')"
        using a as lf by (intro fold_values_div_zero)
      then show ?thesis
        using Cons Cons2 True zero_iff by (simp add: agrees_def del: fold_values.simps)
    next
      case False
      have "agrees (fold_values divideValues a as s)
           (Inr (foldl (/) (rat_of (heap s ! a)) (map (\<lambda>x. rat_of (heap s ! x)) as)))"
        using a as False lf
        by (intro fold_values_agrees [where ok = "\<lambda>v. numerator v \<noteq> 0" and fit = div_fits]
              divideValues_exact) auto
      then show ?thesis
        using Cons Cons2 False zero_iff by (simp del: fold_values.simps)
    qed
  qed
qed

text \<open>
  C4, amended. On a list of Integers and Rationals (denominators not zero), as long as
  every step fits: \<open>+\<close> of no argument is 0 and \<open>*\<close> of no argument is 1 (and both fold
  their arguments from the left otherwise); \<open>-\<close> of no argument is an error, of one
  argument its negation, of two or more the left fold of subtraction; \<open>/\<close> of no
  argument is an error, of one argument the reciprocal, of two or more the left fold of
  division, with "Division by zero" for a zero divisor.
\<close>

theorem Variadic_arithmetic_spec:
  assumes "numbers s args"
  shows "(var_fits PlusVar (map (\<lambda>a. heap s ! a) args) \<longrightarrow>
            agrees (Variadic_evalRator PlusVar args s)
              (plus_spec (map (\<lambda>a. rat_of (heap s ! a)) args)))
    \<and> (var_fits MultVar (map (\<lambda>a. heap s ! a) args) \<longrightarrow>
            agrees (Variadic_evalRator MultVar args s)
              (mult_spec (map (\<lambda>a. rat_of (heap s ! a)) args)))
    \<and> (var_fits MinusVar (map (\<lambda>a. heap s ! a) args) \<longrightarrow>
            agrees (Variadic_evalRator MinusVar args s)
              (minus_spec (map (\<lambda>a. rat_of (heap s ! a)) args)))
    \<and> (var_fits DivVar (map (\<lambda>a. heap s ! a) args) \<longrightarrow>
            agrees (Variadic_evalRator DivVar args s)
              (div_spec (map (\<lambda>a. rat_of (heap s ! a)) args)))"
  using assms PlusVar_agrees MultVar_agrees MinusVar_agrees DivVar_agrees by blast

theorem Variadic_arithmetic_spec_witness:
  "numbers \<lparr>heap = [IntegerV 7, RationalV 1 2, IntegerV 0], cells = []\<rparr> [0, 1, 2]
   \<and> var_fits MinusVar [IntegerV 7, RationalV 1 2, IntegerV 0]
   \<and> returned (Variadic_evalRator MinusVar [0, 1, 2] \<lparr>heap = [IntegerV 7, RationalV 1 2, IntegerV 0], cells = []\<rparr>)
       = Some (RationalV 13 2)
   \<and> var_fits DivVar [IntegerV 7, RationalV 1 2, IntegerV 0]
   \<and> thrown (Variadic_evalRator DivVar [0, 1, 2] \<lparr>heap = [IntegerV 7, RationalV 1 2, IntegerV 0], cells = []\<rparr>)
       = Some (RuntimeError ''Division by zero'')
   \<and> returned (Variadic_evalRator PlusVar [] \<lparr>heap = [IntegerV 7, RationalV 1 2, IntegerV 0], cells = []\<rparr>)
       = Some (IntegerV 0)"
proof -
  define s where "s = \<lparr>heap = [IntegerV 7, RationalV 1 2, IntegerV 0], cells = []\<rparr>"
  have n: "numbers s [0, 1, 2]"
    by (simp add: s_def numbers_def numeric_def)
  have vs: "map (\<lambda>a. heap s ! a) [0, 1, 2] = [IntegerV 7, RationalV 1 2, IntegerV 0]"
    by (simp add: s_def)
  have fm: "var_fits MinusVar [IntegerV 7, RationalV 1 2, IntegerV 0]" by code_simp
  have fd: "var_fits DivVar [IntegerV 7, RationalV 1 2, IntegerV 0]" by code_simp
  have m: "returned (Variadic_evalRator MinusVar [0, 1, 2] s) = Some (RationalV 13 2)"
    unfolding s_def by code_simp
  have p: "returned (Variadic_evalRator PlusVar [] s) = Some (IntegerV 0)"
    unfolding s_def by code_simp
  have "agrees (Variadic_evalRator DivVar [0, 1, 2] s) (div_spec (map (\<lambda>a. rat_of (heap s ! a)) [0, 1, 2]))"
    using Variadic_arithmetic_spec [OF n] fd vs by simp
  moreover have "div_spec (map (\<lambda>a. rat_of (heap s ! a)) [0, 1, 2]) = Inl (RuntimeError ''Division by zero'')"
    by (simp add: s_def)
  ultimately have d: "thrown (Variadic_evalRator DivVar [0, 1, 2] s) = Some (RuntimeError ''Division by zero'')"
    by (simp add: agrees_def)
  show ?thesis using n m p d fm fd unfolding s_def by blast
qed

text \<open>
  C4 as stated fails on \<open>INT_MIN\<close>, whose negation is no \<open>int\<close>: \<open>(- -2147483648)\<close> is
  -2147483648, not the negation, and \<open>(- -2147483648 1)\<close> is 2147483647, not the
  difference.
\<close>

theorem Variadic_arithmetic_overflow:
  "numbers \<lparr>heap = [IntegerV (- 2147483648), IntegerV 1], cells = []\<rparr> [0, 1]
   \<and> in_int (- 2147483648)
   \<and> returned (Variadic_evalRator MinusVar [0] \<lparr>heap = [IntegerV (- 2147483648), IntegerV 1], cells = []\<rparr>)
       = Some (IntegerV (- 2147483648))
   \<and> minus_spec [rat_of (IntegerV (- 2147483648))] = Inr 2147483648
   \<and> \<not> agrees (Variadic_evalRator MinusVar [0] \<lparr>heap = [IntegerV (- 2147483648), IntegerV 1], cells = []\<rparr>)
         (minus_spec [rat_of (IntegerV (- 2147483648))])
   \<and> returned (Variadic_evalRator MinusVar [0, 1] \<lparr>heap = [IntegerV (- 2147483648), IntegerV 1], cells = []\<rparr>)
       = Some (IntegerV 2147483647)
   \<and> minus_spec [rat_of (IntegerV (- 2147483648)), rat_of (IntegerV 1)] = Inr (- 2147483649)
   \<and> \<not> agrees (Variadic_evalRator MinusVar [0, 1] \<lparr>heap = [IntegerV (- 2147483648), IntegerV 1], cells = []\<rparr>)
         (minus_spec [rat_of (IntegerV (- 2147483648)), rat_of (IntegerV 1)])"
  by code_simp

section \<open>Identity\<close>

lemma IsEq_returned:
  "returned (IsEq_evalRator a b s) =
     Some (BooleanV (case by_value (heap s ! a) (heap s ! b) of Some r \<Rightarrow> r | None \<Rightarrow> a = b))"
  by (simp add: IsEq_evalRator_def by_value_def returned_def split: ValueBase.splits)

text \<open>
  C10. \<open>eq?\<close> never throws and returns a Boolean: the comparison by value for two
  Integers, two Booleans or two Symbols, true for two Nulls and for two Voids, and the
  identity of the two objects otherwise. So it is \<open>#t\<close> on any two Integer, Boolean,
  Symbol, Null or Void operands with equal content, \<open>#t\<close> on an object and itself, and
  \<open>#f\<close> on two distinct objects that hold the same Rational.
\<close>

theorem IsEq_spec:
  "returned (IsEq_evalRator a b s) =
     Some (BooleanV (case by_value (heap s ! a) (heap s ! b) of Some r \<Rightarrow> r | None \<Rightarrow> a = b))
   \<and> (compared_by_value (heap s ! a) \<and> heap s ! b = heap s ! a \<longrightarrow>
        returned (IsEq_evalRator a b s) = Some (BooleanV True))
   \<and> returned (IsEq_evalRator a a s) = Some (BooleanV True)
   \<and> (a \<noteq> b \<and> heap s ! a = RationalV p q \<and> heap s ! b = RationalV p q \<longrightarrow>
        returned (IsEq_evalRator a b s) = Some (BooleanV False))"
proof (intro conjI impI)
  show "returned (IsEq_evalRator a b s) =
     Some (BooleanV (case by_value (heap s ! a) (heap s ! b) of Some r \<Rightarrow> r | None \<Rightarrow> a = b))"
    by (rule IsEq_returned)
  show "returned (IsEq_evalRator a b s) = Some (BooleanV True)"
    if "compared_by_value (heap s ! a) \<and> heap s ! b = heap s ! a"
    using that
    by (auto simp: IsEq_returned by_value_def compared_by_value_def split: ValueBase.splits)
  show "returned (IsEq_evalRator a a s) = Some (BooleanV True)"
    by (simp add: IsEq_returned by_value_def split: ValueBase.splits)
  show "returned (IsEq_evalRator a b s) = Some (BooleanV False)"
    if "a \<noteq> b \<and> heap s ! a = RationalV p q \<and> heap s ! b = RationalV p q"
    using that by (simp add: IsEq_returned by_value_def)
qed

theorem IsEq_spec_witness:
  "returned (IsEq_evalRator 0 1 \<lparr>heap = [RationalV 1 2, RationalV 1 2, IntegerV 5, IntegerV 5], cells = []\<rparr>)
      = Some (BooleanV False)
   \<and> returned (IsEq_evalRator 2 3 \<lparr>heap = [RationalV 1 2, RationalV 1 2, IntegerV 5, IntegerV 5], cells = []\<rparr>)
      = Some (BooleanV True)"
  using IsEq_spec [of 0 1 "\<lparr>heap = [RationalV 1 2, RationalV 1 2, IntegerV 5, IntegerV 5], cells = []\<rparr>" 1 2]
    IsEq_spec [of 2 3 "\<lparr>heap = [RationalV 1 2, RationalV 1 2, IntegerV 5, IntegerV 5], cells = []\<rparr>"]
  by (simp add: compared_by_value_def by_value_def)


section \<open>Application of a reified primitive\<close>

lemma eval_rands_length:
  "eval_rands ev es env s = (Inr vs, env1, s1) \<Longrightarrow> length vs = length es"
  by (induction es arbitrary: env s vs) (auto split: prod.splits sum.splits)

lemma reified_primitive_apply:
  assumes "P name \<noteq> None" and "find name env s = None" and "rand \<noteq> []"
    and "eval_rands (eval P R (Suc n)) rand env (s\<lparr>heap := heap s @ [ProcedureV [] (Var name) env]\<rparr>)
           = (Inr args, env2, s2)"
  shows "eval P R (Suc (Suc n)) (Apply (Var name) rand) env s
           = (Inl (RuntimeError ''Wrong number of arguments''), env2, s2)"
proof -
  have "length args = length rand" using assms(4) by (rule eval_rands_length)
  with assms(3) have "length args \<noteq> 0" by simp
  then show ?thesis
    using assms(1,2,4) by (simp add: Apply_eval_def Var_eval_def)
qed

text \<open>
  C1. The value of an unbound primitive name is a Procedure without parameters whose body
  is the name. \<open>Apply::eval\<close> has no branch for it: it compares the number of arguments
  with the number of parameters, so applying the reified \<open>+\<close> to 1 and 2 throws "Wrong
  number of arguments", directly and as the program \<open>((lambda (f) (f 1 2)) +)\<close>.
\<close>

theorem reified_primitive_rejects_arguments:
  "error_of (eval [''+'' \<mapsto> E_PLUS] Map.empty (Suc (Suc (Suc 0)))
       (Apply (Var ''+'') [Fixnum 1, Fixnum 2]) [] \<lparr>heap = [], cells = []\<rparr>)
     = Some (RuntimeError ''Wrong number of arguments'')
   \<and> parse [''+'' \<mapsto> E_PLUS] [''lambda'' \<mapsto> E_LAMBDA]
       (List [List [SymbolSyntax ''lambda'', List [SymbolSyntax ''f''],
                    List [SymbolSyntax ''f'', Number 1, Number 2]],
              SymbolSyntax ''+'']) [] \<lparr>heap = [], cells = []\<rparr>
     = Inr (Apply (Lambda [''f''] (Begin [Apply (Var ''f'') [Fixnum 1, Fixnum 2]])) [Var ''+''])
   \<and> error_of (eval [''+'' \<mapsto> E_PLUS] [''lambda'' \<mapsto> E_LAMBDA] (Suc (Suc (Suc (Suc (Suc 0)))))
       (Apply (Lambda [''f''] (Begin [Apply (Var ''f'') [Fixnum 1, Fixnum 2]])) [Var ''+''])
       [] \<lparr>heap = [], cells = []\<rparr>)
     = Some (RuntimeError ''Wrong number of arguments'')"
  by code_simp

section \<open>Logic\<close>

lemma is_false_iff: "is_false v \<longleftrightarrow> v = BooleanV False"
  by (cases v) (auto simp: is_false_def)

lemma and_loop_truthy:
  "run_while truthy ev pre env s = Some (env1, s1) \<Longrightarrow>
   \<exists>r1. and_loop ev (pre @ rest) r env s = and_loop ev rest r1 env1 s1"
proof (induction pre arbitrary: r env s)
  case Nil
  then show ?case by auto
next
  case (Cons e es)
  then show ?case
    by (auto simp: truthy_def is_false_iff split: prod.splits sum.splits if_splits)
qed

lemma or_loop_false:
  "run_while is_false ev pre env s = Some (env1, s1) \<Longrightarrow>
   or_loop ev (pre @ rest) env s = or_loop ev rest env1 s1"
proof (induction pre arbitrary: env s)
  case Nil
  then show ?case by auto
next
  case (Cons e es)
  then show ?case
    by (auto split: prod.splits sum.splits if_splits)
qed

lemma AndVar_false:
  assumes "run_while truthy ev pre env (s\<lparr>heap := heap s @ [BooleanV True]\<rparr>) = Some (env1, s1)"
    and "ev e env1 s1 = (Inr v, env2, s2)" and "heap s2 ! v = BooleanV False"
  shows "AndVar_eval ev (pre @ e # post) env s = fresh_res (BooleanV False) env2 s2"
proof -
  obtain r1 where "and_loop ev (pre @ e # post) (length (heap s)) env (s\<lparr>heap := heap s @ [BooleanV True]\<rparr>)
      = and_loop ev (e # post) r1 env1 s1"
    using and_loop_truthy [OF assms(1)] by blast
  then show ?thesis
    using assms(2,3) by (simp add: AndVar_eval_def new_value_def is_false_iff)
qed

lemma AndVar_last:
  assumes "run_while truthy ev pre env (s\<lparr>heap := heap s @ [BooleanV True]\<rparr>) = Some (env1, s1)"
    and "ev e env1 s1 = (Inr v, env2, s2)" and "heap s2 ! v \<noteq> BooleanV False"
  shows "AndVar_eval ev (pre @ [e]) env s = (Inr v, env2, s2)"
proof -
  obtain r1 where "and_loop ev (pre @ [e]) (length (heap s)) env (s\<lparr>heap := heap s @ [BooleanV True]\<rparr>)
      = and_loop ev [e] r1 env1 s1"
    using and_loop_truthy [OF assms(1)] by blast
  then show ?thesis
    using assms(2,3) by (simp add: AndVar_eval_def new_value_def is_false_iff)
qed

lemma OrVar_first:
  assumes "run_while is_false ev pre env s = Some (env1, s1)"
    and "ev e env1 s1 = (Inr v, env2, s2)" and "heap s2 ! v \<noteq> BooleanV False"
  shows "OrVar_eval ev (pre @ e # post) env s = (Inr v, env2, s2)"
  using or_loop_false [OF assms(1), of "e # post"] assms(2,3)
  by (simp add: OrVar_eval_def is_false_iff)

lemma OrVar_none:
  assumes "run_while is_false ev rands env s = Some (env1, s1)"
  shows "OrVar_eval ev rands env s = fresh_res (BooleanV False) env1 s1"
proof (cases "rands = []")
  case True
  with assms show ?thesis by (simp add: OrVar_eval_def)
next
  case False
  then show ?thesis
    using or_loop_false [OF assms, of "[]"] by (simp add: OrVar_eval_def)
qed

text \<open>
  C6. \<open>and\<close> of no operand is \<open>#t\<close>. If the operands before \<open>e\<close> each return a
  value other than \<open>#f\<close> and \<open>e\<close> returns \<open>#f\<close>, \<open>and\<close> returns a new \<open>#f\<close> in the
  state \<open>e\<close> left, whatever operands follow: they are not evaluated. If \<open>e\<close> is the last
  operand and returns a value other than \<open>#f\<close>, \<open>and\<close> returns that value. \<open>or\<close> of no
  operand is \<open>#f\<close>. If the operands before \<open>e\<close> each return \<open>#f\<close> and \<open>e\<close> returns another
  value, \<open>or\<close> returns that value, whatever operands follow; if every operand returns
  \<open>#f\<close>, \<open>or\<close> returns a new \<open>#f\<close>. Only the Boolean \<open>#f\<close> is false.
\<close>

theorem AndVar_OrVar_spec:
  "value_of (eval P R (Suc n) (AndVar []) env s) = Some (BooleanV True)
   \<and> (run_while truthy (eval P R n) pre env (s\<lparr>heap := heap s @ [BooleanV True]\<rparr>) = Some (env1, s1)
        \<and> eval P R n e env1 s1 = (Inr v, env2, s2) \<and> heap s2 ! v = BooleanV False \<longrightarrow>
      eval P R (Suc n) (AndVar (pre @ e # post)) env s = fresh_res (BooleanV False) env2 s2)
   \<and> (run_while truthy (eval P R n) pre env (s\<lparr>heap := heap s @ [BooleanV True]\<rparr>) = Some (env1, s1)
        \<and> eval P R n e env1 s1 = (Inr v, env2, s2) \<and> heap s2 ! v \<noteq> BooleanV False \<longrightarrow>
      eval P R (Suc n) (AndVar (pre @ [e])) env s = (Inr v, env2, s2))
   \<and> value_of (eval P R (Suc n) (OrVar []) env s) = Some (BooleanV False)
   \<and> (run_while is_false (eval P R n) pre env s = Some (env1, s1)
        \<and> eval P R n e env1 s1 = (Inr v, env2, s2) \<and> heap s2 ! v \<noteq> BooleanV False \<longrightarrow>
      eval P R (Suc n) (OrVar (pre @ e # post)) env s = (Inr v, env2, s2))
   \<and> (run_while is_false (eval P R n) pre env s = Some (env1, s1) \<longrightarrow>
      eval P R (Suc n) (OrVar pre) env s = fresh_res (BooleanV False) env1 s1)
   \<and> (is_false ob \<longleftrightarrow> ob = BooleanV False)"
proof (intro conjI impI)
  show "value_of (eval P R (Suc n) (AndVar []) env s) = Some (BooleanV True)"
    by (simp add: AndVar_eval_def value_of_def)
  show "value_of (eval P R (Suc n) (OrVar []) env s) = Some (BooleanV False)"
    by (simp add: OrVar_eval_def value_of_def)
  show "eval P R (Suc n) (AndVar (pre @ e # post)) env s = fresh_res (BooleanV False) env2 s2"
    if "run_while truthy (eval P R n) pre env (s\<lparr>heap := heap s @ [BooleanV True]\<rparr>) = Some (env1, s1)
        \<and> eval P R n e env1 s1 = (Inr v, env2, s2) \<and> heap s2 ! v = BooleanV False"
    using that AndVar_false [of "eval P R n" pre env s env1 s1 e v env2 s2 post]
    by (simp del: fresh_res_eq)
  show "eval P R (Suc n) (AndVar (pre @ [e])) env s = (Inr v, env2, s2)"
    if "run_while truthy (eval P R n) pre env (s\<lparr>heap := heap s @ [BooleanV True]\<rparr>) = Some (env1, s1)
        \<and> eval P R n e env1 s1 = (Inr v, env2, s2) \<and> heap s2 ! v \<noteq> BooleanV False"
    using that AndVar_last [of "eval P R n" pre env s env1 s1 e v env2 s2]
    by simp
  show "eval P R (Suc n) (OrVar (pre @ e # post)) env s = (Inr v, env2, s2)"
    if "run_while is_false (eval P R n) pre env s = Some (env1, s1)
        \<and> eval P R n e env1 s1 = (Inr v, env2, s2) \<and> heap s2 ! v \<noteq> BooleanV False"
    using that OrVar_first [of "eval P R n" pre env s env1 s1 e v env2 s2 post]
    by simp
  show "eval P R (Suc n) (OrVar pre) env s = fresh_res (BooleanV False) env1 s1"
    if "run_while is_false (eval P R n) pre env s = Some (env1, s1)"
    using that OrVar_none [of "eval P R n" pre env s env1 s1]
    by (simp del: fresh_res_eq)
  show "is_false ob \<longleftrightarrow> ob = BooleanV False"
    by (rule is_false_iff)
qed


theorem AndVar_OrVar_spec_witness:
  "run_while truthy (eval Map.empty Map.empty (Suc 0)) [Fixnum 1] []
       \<lparr>heap = [BooleanV True], cells = []\<rparr>
     = Some ([], \<lparr>heap = [BooleanV True, IntegerV 1], cells = []\<rparr>)
   \<and> eval Map.empty Map.empty (Suc 0) False_e [] \<lparr>heap = [BooleanV True, IntegerV 1], cells = []\<rparr>
     = (Inr 2, [], \<lparr>heap = [BooleanV True, IntegerV 1, BooleanV False], cells = []\<rparr>)
   \<and> eval Map.empty Map.empty (Suc (Suc 0)) (AndVar [Fixnum 1, False_e, Fixnum 3]) []
       \<lparr>heap = [], cells = []\<rparr>
     = (Inr 3, [], \<lparr>heap = [BooleanV True, IntegerV 1, BooleanV False, BooleanV False], cells = []\<rparr>)
   \<and> run_while is_false (eval Map.empty Map.empty (Suc 0)) [False_e, False_e] []
       \<lparr>heap = [], cells = []\<rparr>
     = Some ([], \<lparr>heap = [BooleanV False, BooleanV False], cells = []\<rparr>)
   \<and> eval Map.empty Map.empty (Suc 0) (Fixnum 7) [] \<lparr>heap = [BooleanV False, BooleanV False], cells = []\<rparr>
     = (Inr 2, [], \<lparr>heap = [BooleanV False, BooleanV False, IntegerV 7], cells = []\<rparr>)
   \<and> eval Map.empty Map.empty (Suc (Suc 0)) (OrVar [False_e, False_e, Fixnum 7, Var ''x'']) []
       \<lparr>heap = [], cells = []\<rparr>
     = (Inr 2, [], \<lparr>heap = [BooleanV False, BooleanV False, IntegerV 7], cells = []\<rparr>)"
proof -
  have a1: "run_while truthy (eval Map.empty Map.empty (Suc 0)) [Fixnum 1] []
       (\<lparr>heap = [], cells = []\<rparr>\<lparr>heap := heap \<lparr>heap = [], cells = []\<rparr> @ [BooleanV True]\<rparr>)
     = Some ([], \<lparr>heap = [BooleanV True, IntegerV 1], cells = []\<rparr>)"
    by (simp add: truthy_def)
  have a2: "eval Map.empty Map.empty (Suc 0) False_e [] \<lparr>heap = [BooleanV True, IntegerV 1], cells = []\<rparr>
     = (Inr 2, [], \<lparr>heap = [BooleanV True, IntegerV 1, BooleanV False], cells = []\<rparr>)"
    by simp
  have a3: "heap \<lparr>heap = [BooleanV True, IntegerV 1, BooleanV False], cells = []\<rparr> ! 2 = BooleanV False"
    by simp
  have a: "eval Map.empty Map.empty (Suc (Suc 0)) (AndVar ([Fixnum 1] @ False_e # [Fixnum 3])) []
       \<lparr>heap = [], cells = []\<rparr>
     = fresh_res (BooleanV False) [] \<lparr>heap = [BooleanV True, IntegerV 1, BooleanV False], cells = []\<rparr>"
    using AndVar_OrVar_spec [of Map.empty Map.empty "Suc 0" "[]" "\<lparr>heap = [], cells = []\<rparr>"
        "[Fixnum 1]" "[]" "\<lparr>heap = [BooleanV True, IntegerV 1], cells = []\<rparr>"
        False_e 2 "[]" "\<lparr>heap = [BooleanV True, IntegerV 1, BooleanV False], cells = []\<rparr>"
        "[Fixnum 3]"] a1 a2 a3
    by blast
  have o1: "run_while is_false (eval Map.empty Map.empty (Suc 0)) [False_e, False_e] []
       \<lparr>heap = [], cells = []\<rparr>
     = Some ([], \<lparr>heap = [BooleanV False, BooleanV False], cells = []\<rparr>)"
    by (simp add: is_false_def)
  have o2: "eval Map.empty Map.empty (Suc 0) (Fixnum 7) [] \<lparr>heap = [BooleanV False, BooleanV False], cells = []\<rparr>
     = (Inr 2, [], \<lparr>heap = [BooleanV False, BooleanV False, IntegerV 7], cells = []\<rparr>)"
    by simp
  have o3: "heap \<lparr>heap = [BooleanV False, BooleanV False, IntegerV 7], cells = []\<rparr> ! 2 \<noteq> BooleanV False"
    by simp
  have o: "eval Map.empty Map.empty (Suc (Suc 0)) (OrVar ([False_e, False_e] @ Fixnum 7 # [Var ''x''])) []
       \<lparr>heap = [], cells = []\<rparr>
     = (Inr 2, [], \<lparr>heap = [BooleanV False, BooleanV False, IntegerV 7], cells = []\<rparr>)"
    using AndVar_OrVar_spec [of Map.empty Map.empty "Suc 0" "[]" "\<lparr>heap = [], cells = []\<rparr>"
        "[False_e, False_e]" "[]" "\<lparr>heap = [BooleanV False, BooleanV False], cells = []\<rparr>"
        "Fixnum 7" 2 "[]" "\<lparr>heap = [BooleanV False, BooleanV False, IntegerV 7], cells = []\<rparr>"
        "[Var ''x'']"] o1 o2 o3
    by blast
  show ?thesis
    using a1 a2 a o1 o2 o by (simp del: eval.simps)
qed


section \<open>Cond\<close>

lemma Cond_skip:
  "skip_clauses ev skipped env s = Some (env1, s1) \<Longrightarrow>
   Cond_eval ev (skipped @ rest) env s = Cond_eval ev rest env1 s1"
proof (induction ev skipped env s rule: skip_clauses.induct)
  case (1 ev env s)
  then show ?case by simp
next
  case (2 ev clauses env s)
  then show ?case by simp
next
  case (3 ev test body clauses env s)
  then show ?case
    by (auto simp: is_false_iff split: if_splits prod.splits sum.splits)
qed

lemma eval_seq_last:
  "eval_rands ev es env s = (Inr vs, env1, s1) \<Longrightarrow>
   eval_seq ev es r env s = (Inr (last (r # vs)), env1, s1)"
proof (induction es arbitrary: r env s vs)
  case Nil
  then show ?case by simp
next
  case (Cons e es)
  then show ?case
    by (auto split: prod.splits sum.splits)
qed

lemma eval_seq_error:
  "eval_rands ev es env s = (Inl er, env1, s1) \<Longrightarrow>
   eval_seq ev es r env s = (Inl er, env1, s1)"
proof (induction es arbitrary: r env s)
  case Nil
  then show ?case by simp
next
  case (Cons e es)
  then show ?case
    by (auto split: prod.splits sum.splits)
qed

lemma clause_body_last:
  assumes "body \<noteq> []"
    and "eval_rands ev body env (s\<lparr>heap := heap s @ [VoidV]\<rparr>) = (Inr vs, env1, s1)"
  shows "clause_body ev body env s = (Inr (last vs), env1, s1)"
proof -
  have "length vs = length body" using assms(2) by (rule eval_rands_length)
  with assms(1) have "vs \<noteq> []" by auto
  then show ?thesis
    using eval_seq_last [OF assms(2)] by (simp add: clause_body_def new_value_def)
qed

text \<open>
  C7. \<open>Cond\<close> passes over the clauses that are empty or whose test, not \<open>Var "else"\<close>,
  returns \<open>#f\<close>. If it passes over all of them it returns Void. At a clause whose head is
  \<open>Var "else"\<close> it evaluates the rest of the clause without a test. At a clause whose
  test returns a value other than \<open>#f\<close> it returns that value when the clause has one
  element, and evaluates the rest of the clause otherwise. The rest of a clause is
  evaluated in order and gives the value of its last expression. Later clauses are not
  looked at.
\<close>

theorem Cond_spec:
  "(skip_clauses (eval P R n) clauses env s = Some (env1, s1) \<longrightarrow>
      eval P R (Suc n) (Cond clauses) env s = fresh_res VoidV env1 s1)
   \<and> (skip_clauses (eval P R n) skipped env s = Some (env1, s1) \<and> body \<noteq> [] \<longrightarrow>
      eval P R (Suc n) (Cond (skipped @ (Var ''else'' # body) # later)) env s
        = clause_body (eval P R n) body env1 s1)
   \<and> (skip_clauses (eval P R n) skipped env s = Some (env1, s1) \<and> test \<noteq> Var ''else''
        \<and> eval P R n test env1 s1 = (Inr v, env2, s2) \<and> heap s2 ! v \<noteq> BooleanV False \<longrightarrow>
      eval P R (Suc n) (Cond (skipped @ [test] # later)) env s = (Inr v, env2, s2))
   \<and> (skip_clauses (eval P R n) skipped env s = Some (env1, s1) \<and> test \<noteq> Var ''else''
        \<and> eval P R n test env1 s1 = (Inr v, env2, s2) \<and> heap s2 ! v \<noteq> BooleanV False
        \<and> body \<noteq> [] \<longrightarrow>
      eval P R (Suc n) (Cond (skipped @ (test # body) # later)) env s
        = clause_body (eval P R n) body env2 s2)
   \<and> (body \<noteq> [] \<and> eval_rands (eval P R n) body env (s\<lparr>heap := heap s @ [VoidV]\<rparr>)
          = (Inr vs, env3, s3) \<longrightarrow>
      clause_body (eval P R n) body env s = (Inr (last vs), env3, s3))"
proof (intro conjI impI)
  show "eval P R (Suc n) (Cond clauses) env s = fresh_res VoidV env1 s1"
    if "skip_clauses (eval P R n) clauses env s = Some (env1, s1)"
    using Cond_skip [OF that, of "[]"] by simp
  show "eval P R (Suc n) (Cond (skipped @ (Var ''else'' # body) # later)) env s
        = clause_body (eval P R n) body env1 s1"
    if "skip_clauses (eval P R n) skipped env s = Some (env1, s1) \<and> body \<noteq> []"
    using that Cond_skip [of "eval P R n" skipped env s env1 s1 "(Var ''else'' # body) # later"]
    by simp
  show "eval P R (Suc n) (Cond (skipped @ [test] # later)) env s = (Inr v, env2, s2)"
    if "skip_clauses (eval P R n) skipped env s = Some (env1, s1) \<and> test \<noteq> Var ''else''
        \<and> eval P R n test env1 s1 = (Inr v, env2, s2) \<and> heap s2 ! v \<noteq> BooleanV False"
    using that Cond_skip [of "eval P R n" skipped env s env1 s1 "[test] # later"]
    by (simp add: is_false_iff)
  show "eval P R (Suc n) (Cond (skipped @ (test # body) # later)) env s
        = clause_body (eval P R n) body env2 s2"
    if "skip_clauses (eval P R n) skipped env s = Some (env1, s1) \<and> test \<noteq> Var ''else''
        \<and> eval P R n test env1 s1 = (Inr v, env2, s2) \<and> heap s2 ! v \<noteq> BooleanV False
        \<and> body \<noteq> []"
    using that Cond_skip [of "eval P R n" skipped env s env1 s1 "(test # body) # later"]
    by (simp add: is_false_iff)
  show "clause_body (eval P R n) body env s = (Inr (last vs), env3, s3)"
    if "body \<noteq> [] \<and> eval_rands (eval P R n) body env (s\<lparr>heap := heap s @ [VoidV]\<rparr>)
          = (Inr vs, env3, s3)"
    using that clause_body_last [of body "eval P R n" env s vs env3 s3] by simp
qed


theorem Cond_spec_witness:
  "skip_clauses (eval Map.empty Map.empty (Suc 0)) [[False_e, Fixnum 1]] [] \<lparr>heap = [], cells = []\<rparr>
     = Some ([], \<lparr>heap = [BooleanV False], cells = []\<rparr>)
   \<and> eval Map.empty Map.empty (Suc (Suc 0)) (Cond [[False_e, Fixnum 1]]) [] \<lparr>heap = [], cells = []\<rparr>
     = (Inr 1, [], \<lparr>heap = [BooleanV False, VoidV], cells = []\<rparr>)
   \<and> eval Map.empty Map.empty (Suc 0) (Fixnum 2) [] \<lparr>heap = [BooleanV False], cells = []\<rparr>
     = (Inr 1, [], \<lparr>heap = [BooleanV False, IntegerV 2], cells = []\<rparr>)
   \<and> eval Map.empty Map.empty (Suc (Suc 0))
       (Cond [[False_e, Fixnum 1], [Fixnum 2], [Var ''else'', Fixnum 3]]) [] \<lparr>heap = [], cells = []\<rparr>
     = (Inr 1, [], \<lparr>heap = [BooleanV False, IntegerV 2], cells = []\<rparr>)
   \<and> eval_rands (eval Map.empty Map.empty (Suc 0)) [Fixnum 3, Fixnum 4] []
       \<lparr>heap = [BooleanV False, VoidV], cells = []\<rparr>
     = (Inr [2, 3], [], \<lparr>heap = [BooleanV False, VoidV, IntegerV 3, IntegerV 4], cells = []\<rparr>)
   \<and> eval Map.empty Map.empty (Suc (Suc 0))
       (Cond [[False_e, Fixnum 1], [Var ''else'', Fixnum 3, Fixnum 4], [Fixnum 5]]) []
       \<lparr>heap = [], cells = []\<rparr>
     = (Inr 3, [], \<lparr>heap = [BooleanV False, VoidV, IntegerV 3, IntegerV 4], cells = []\<rparr>)"
proof -
  let ?ev = "eval Map.empty Map.empty (Suc 0)"
  let ?s0 = "\<lparr>heap = [], cells = []\<rparr>"
  let ?s1 = "\<lparr>heap = [BooleanV False], cells = []\<rparr>"
  let ?s2 = "\<lparr>heap = [BooleanV False, IntegerV 2], cells = []\<rparr>"
  let ?s3 = "\<lparr>heap = [BooleanV False, VoidV, IntegerV 3, IntegerV 4], cells = []\<rparr>"
  have k: "skip_clauses ?ev [[False_e, Fixnum 1]] [] ?s0 = Some ([], ?s1)"
    by simp
  have t: "?ev (Fixnum 2) [] ?s1 = (Inr 1, [], ?s2)"
    by simp
  have t2: "Fixnum 2 \<noteq> Var ''else''" "heap ?s2 ! 1 \<noteq> BooleanV False" "[Fixnum 3, Fixnum 4] \<noteq> []"
    by simp_all
  have b: "eval_rands ?ev [Fixnum 3, Fixnum 4] [] (?s1\<lparr>heap := heap ?s1 @ [VoidV]\<rparr>) = (Inr [2, 3], [], ?s3)"
    by simp
  have c1: "eval Map.empty Map.empty (Suc (Suc 0)) (Cond [[False_e, Fixnum 1]]) [] ?s0
      = fresh_res VoidV [] ?s1"
    using Cond_spec [where P = Map.empty and R = Map.empty and n = "Suc 0"
        and clauses = "[[False_e, Fixnum 1]]" and env = "[]" and s = ?s0 and ?env1.0 = "[]"
        and ?s1.0 = ?s1] k
    by blast
  have c2: "eval Map.empty Map.empty (Suc (Suc 0))
       (Cond ([[False_e, Fixnum 1]] @ [Fixnum 2] # [[Var ''else'', Fixnum 3]])) [] ?s0
      = (Inr 1, [], ?s2)"
    using Cond_spec [where P = Map.empty and R = Map.empty and n = "Suc 0"
        and skipped = "[[False_e, Fixnum 1]]" and env = "[]" and s = ?s0 and ?env1.0 = "[]"
        and ?s1.0 = ?s1 and test = "Fixnum 2" and v = 1 and ?env2.0 = "[]" and ?s2.0 = ?s2
        and later = "[[Var ''else'', Fixnum 3]]"] k t t2
    by blast
  have c3: "eval Map.empty Map.empty (Suc (Suc 0))
       (Cond ([[False_e, Fixnum 1]] @ (Var ''else'' # [Fixnum 3, Fixnum 4]) # [[Fixnum 5]])) [] ?s0
      = clause_body ?ev [Fixnum 3, Fixnum 4] [] ?s1"
    using Cond_spec [where P = Map.empty and R = Map.empty and n = "Suc 0"
        and skipped = "[[False_e, Fixnum 1]]" and env = "[]" and s = ?s0 and ?env1.0 = "[]"
        and ?s1.0 = ?s1 and body = "[Fixnum 3, Fixnum 4]" and later = "[[Fixnum 5]]"] k t2
    by blast
  have c4: "clause_body ?ev [Fixnum 3, Fixnum 4] [] ?s1 = (Inr (last [2, 3]), [], ?s3)"
    using Cond_spec [where P = Map.empty and R = Map.empty and n = "Suc 0"
        and body = "[Fixnum 3, Fixnum 4]" and env = "[]" and s = ?s1 and vs = "[2, 3]"
        and ?env3.0 = "[]" and ?s3.0 = ?s3] b t2
    by blast
  show ?thesis
    using k t b c1 c2 c3 c4 by (simp del: eval.simps Expr_eval.simps)
qed

section \<open>Let and Letrec\<close>

lemma extend_all_eq:
  "extend_all bs env s =
     (rev (zip (map fst bs) [length (cells s) ..< length (cells s) + length bs]) @ env,
      s\<lparr>cells := cells s @ map snd bs\<rparr>)"
proof (induction bs arbitrary: env s)
  case Nil
  then show ?case by simp
next
  case (Cons b bs)
  obtain x v where b: "b = (x, v)" by (cases b)
  have "[length (cells s) ..< length (cells s) + Suc (length bs)]
      = length (cells s) # [Suc (length (cells s)) ..< Suc (length (cells s)) + length bs]"
    by (simp add: upt_rec)
  then show ?case
    by (simp add: b Cons.IH extend_def)
qed

lemma extend_all_names:
  assumes "length vs = length names"
  shows "extend_all (zip names vs) env s
     = (bound_env names (length (cells s)) env, s\<lparr>cells := cells s @ vs\<rparr>)"
  using assms by (simp add: extend_all_eq bound_env_def)

lemma map_of_bound_env:
  assumes "distinct names" and "i < length names"
  shows "map_of (bound_env names base env) (names ! i) = Some (base + i)"
proof -
  have d: "distinct (map fst (zip names [base ..< base + length names]))"
    using assms(1) by (simp add: map_fst_zip)
  have "(names ! i, base + i) \<in> set (zip names [base ..< base + length names])"
    using assms(2) by (auto simp: set_zip intro!: exI [of _ i])
  then have "map_of (rev (zip names [base ..< base + length names])) (names ! i) = Some (base + i)"
    using d by (intro map_of_is_SomeI) (simp_all add: rev_map [symmetric])
  then show ?thesis by (simp add: bound_env_def)
qed

lemma map_of_bound_env_other:
  assumes "x \<notin> set names"
  shows "map_of (bound_env names base env) x = map_of env x"
proof -
  have "x \<notin> fst ` set (rev (zip names [base ..< base + length names]))"
    using assms by (auto dest: set_zip_leftD)
  then have "map_of (rev (zip names [base ..< base + length names])) x = None"
    by (simp add: map_of_eq_None_iff)
  then show ?thesis by (simp add: bound_env_def map_add_def)
qed


lemma map_of_bound_env_in:
  assumes "x \<in> set names"
  shows "\<exists>j < length names. map_of (bound_env names base env) x = Some (base + j)"
proof -
  have "map fst (zip names [base ..< base + length names]) = names"
    by simp
  then have "fst ` set (zip names [base ..< base + length names]) = set names"
    by (metis set_map)
  then have "x \<in> fst ` set (rev (zip names [base ..< base + length names]))"
    using assms by simp
  then obtain c where c: "map_of (rev (zip names [base ..< base + length names])) x = Some c"
    by (metis map_of_eq_None_iff not_Some_eq)
  then have "(x, c) \<in> set (zip names [base ..< base + length names])"
    using map_of_SomeD by fastforce
  then have "c \<in> set [base ..< base + length names]"
    by (rule set_zip_rightD)
  then have "base \<le> c" "c < base + length names" by auto
  then have "c - base < length names" "c = base + (c - base)" by auto
  with c show ?thesis by (auto simp: bound_env_def)
qed

lemma find_bound:
  assumes "distinct names" and "i < length names" and "length vs = length names"
  shows "find (names ! i) (bound_env names (length cs) env) (s\<lparr>cells := cs @ vs\<rparr>) = vs ! i"
  using assms by (simp add: find_def map_of_bound_env nth_append)

lemma find_placeholder:
  assumes "x \<in> set names"
  shows "find x (bound_env names (length cs) env) (s\<lparr>cells := cs @ replicate (length names) None\<rparr>) = None"
proof -
  obtain j where "j < length names" "map_of (bound_env names (length cs) env) x = Some (length cs + j)"
    using map_of_bound_env_in [OF assms] by blast
  then show ?thesis by (simp add: find_def nth_append)
qed

lemma find_outer:
  assumes "x \<notin> set names" and "\<forall>c. map_of env x = Some c \<longrightarrow> c < length cs"
  shows "find x (bound_env names (length cs) env) (s\<lparr>cells := cs @ vs\<rparr>) = find x env (s\<lparr>cells := cs\<rparr>)"
  using assms by (auto simp: find_def map_of_bound_env_other nth_append split: option.splits)

lemma modify_bound:
  assumes "distinct names" and "i < length names" and "base + i < length (cells s)"
  shows "find (names ! i) (bound_env names base env) (modify (names ! i) v (bound_env names base env) s) = v"
    and "j < length names \<Longrightarrow> j \<noteq> i \<Longrightarrow>
      find (names ! j) (bound_env names base env) (modify (names ! i) v (bound_env names base env) s)
        = find (names ! j) (bound_env names base env) s"
  using assms by (simp_all add: find_def modify_def map_of_bound_env)

lemma Let_eval_ok:
  assumes "eval_rands ev (map snd bind) env s = (Inr vals, env1, s1)"
  shows "Let_eval ev bind body env s =
     (case ev body (bound_env (map fst bind) (length (cells s1)) env1)
             (s1\<lparr>cells := cells s1 @ map Some vals\<rparr>) of
        (r, new_env1, s3) \<Rightarrow> (r, env1, s3))"
proof -
  have "length vals = length bind"
    using eval_rands_length [OF assms] by simp
  then show ?thesis
    using assms by (simp add: Let_eval_def extend_all_names)
qed

lemma Letrec_eval_eq:
  "Letrec_eval ev bind body env s =
     (case letrec_loop ev bind (bound_env (map fst bind) (length (cells s)) env)
             (s\<lparr>cells := cells s @ replicate (length bind) None\<rparr>) of
        (Inl er, new_env1, s2) \<Rightarrow> (Inl er, env, s2)
      | (Inr u, new_env1, s2) \<Rightarrow>
          (case ev body new_env1 s2 of (r, new_env2, s3) \<Rightarrow> (r, env, s3)))"
proof -
  have "extend_all (map (\<lambda>binding. (fst binding, None)) bind) env s
      = (bound_env (map fst bind) (length (cells s)) env,
         s\<lparr>cells := cells s @ replicate (length bind) None\<rparr>)"
    by (simp add: extend_all_eq bound_env_def comp_def map_replicate_const)
  then show ?thesis
    by (simp add: Letrec_eval_def)
qed

text \<open>
  C9. \<open>Let\<close> evaluates the right-hand sides in order in the environment of the \<open>Let\<close>
  itself; if one throws, the body is not evaluated. Otherwise the body runs in that
  environment extended by one new cell per binding, holding the values (so a name bound
  once is found with its value), and the caller keeps the environment the right-hand
  sides left. So \<open>(let ((x 1) (y x)) y)\<close> finds no \<open>x\<close>. \<open>Letrec\<close> first extends the
  environment by one cell per binding holding the null pointer, so that every bound name
  is found as absent; it then evaluates each right-hand side in the extended environment
  and writes its value with \<open>modify\<close>, which for names bound once changes the cell of
  that name and no other; the body runs in the environment the loop left, and the caller
  keeps its own. The mutually recursive \<open>even?\<close> and \<open>odd?\<close> give \<open>#t\<close> on 10.
\<close>

theorem Let_Letrec_spec:
  "(eval_rands (eval P R n) (map snd bind) env s = (Inr vals, env1, s1) \<longrightarrow>
      eval P R (Suc n) (Let_e bind body) env s =
        (case eval P R n body (bound_env (map fst bind) (length (cells s1)) env1)
                (s1\<lparr>cells := cells s1 @ map Some vals\<rparr>) of
           (r, new_env1, s3) \<Rightarrow> (r, env1, s3)))
   \<and> (eval_rands (eval P R n) (map snd bind) env s = (Inl er, env1, s1) \<longrightarrow>
      eval P R (Suc n) (Let_e bind body) env s = (Inl er, env1, s1))
   \<and> (distinct (map fst bind) \<and> i < length bind \<and> length vals = length bind \<longrightarrow>
      find (map fst bind ! i) (bound_env (map fst bind) (length (cells s1)) env1)
        (s1\<lparr>cells := cells s1 @ map Some vals\<rparr>) = Some (vals ! i))
   \<and> eval P R (Suc n) (Letrec bind body) env s =
        (case letrec_loop (eval P R n) bind (bound_env (map fst bind) (length (cells s)) env)
                (s\<lparr>cells := cells s @ replicate (length bind) None\<rparr>) of
           (Inl er, new_env1, s2) \<Rightarrow> (Inl er, env, s2)
         | (Inr u, new_env1, s2) \<Rightarrow>
             (case eval P R n body new_env1 s2 of (r, new_env2, s3) \<Rightarrow> (r, env, s3)))
   \<and> (x \<in> set (map fst bind) \<longrightarrow>
      find x (bound_env (map fst bind) (length (cells s)) env)
        (s\<lparr>cells := cells s @ replicate (length bind) None\<rparr>) = None)
   \<and> letrec_loop ev ((x, e) # rest) new_env s =
        (case ev e new_env s of
           (Inl er, new_env1, s1) \<Rightarrow> (Inl er, new_env1, s1)
         | (Inr val, new_env1, s1) \<Rightarrow> letrec_loop ev rest new_env1 (modify x (Some val) new_env1 s1))
   \<and> (distinct names \<and> i < length names \<and> base + i < length (cells s) \<longrightarrow>
      find (names ! i) (bound_env names base env) (modify (names ! i) (Some v) (bound_env names base env) s)
        = Some v)
   \<and> (distinct names \<and> i < length names \<and> base + i < length (cells s)
        \<and> j < length names \<and> j \<noteq> i \<longrightarrow>
      find (names ! j) (bound_env names base env) (modify (names ! i) (Some v) (bound_env names base env) s)
        = find (names ! j) (bound_env names base env) s)
   \<and> error_of (eval P R (Suc (Suc 0)) (Let_e [(''x'', Fixnum 1), (''y'', Var ''x'')] (Var ''y'')) []
        \<lparr>heap = [], cells = []\<rparr>) = (if P ''x'' = None then Some (RuntimeError ''Undefined variable: x'') else None)
   \<and> value_of (eval Map.empty Map.empty 34
        (Letrec
           [(''even?'', Lambda [''n'']
               (If_e (Binary Equal (Var ''n'') (Fixnum 0)) True_e
                  (Apply (Var ''odd?'') [Binary Minus (Var ''n'') (Fixnum 1)]))),
            (''odd?'', Lambda [''n'']
               (If_e (Binary Equal (Var ''n'') (Fixnum 0)) False_e
                  (Apply (Var ''even?'') [Binary Minus (Var ''n'') (Fixnum 1)])))]
           (Apply (Var ''even?'') [Fixnum 10])) [] \<lparr>heap = [], cells = []\<rparr>)
        = Some (BooleanV True)"
proof (intro conjI impI)
  show "value_of (eval Map.empty Map.empty 34
        (Letrec
           [(''even?'', Lambda [''n'']
               (If_e (Binary Equal (Var ''n'') (Fixnum 0)) True_e
                  (Apply (Var ''odd?'') [Binary Minus (Var ''n'') (Fixnum 1)]))),
            (''odd?'', Lambda [''n'']
               (If_e (Binary Equal (Var ''n'') (Fixnum 0)) False_e
                  (Apply (Var ''even?'') [Binary Minus (Var ''n'') (Fixnum 1)])))]
           (Apply (Var ''even?'') [Fixnum 10])) [] \<lparr>heap = [], cells = []\<rparr>)
        = Some (BooleanV True)"
    by code_simp
  show "eval P R (Suc n) (Let_e bind body) env s =
        (case eval P R n body (bound_env (map fst bind) (length (cells s1)) env1)
                (s1\<lparr>cells := cells s1 @ map Some vals\<rparr>) of
           (r, new_env1, s3) \<Rightarrow> (r, env1, s3))"
    if "eval_rands (eval P R n) (map snd bind) env s = (Inr vals, env1, s1)"
    using Let_eval_ok [OF that] by simp
  show "eval P R (Suc n) (Let_e bind body) env s = (Inl er, env1, s1)"
    if "eval_rands (eval P R n) (map snd bind) env s = (Inl er, env1, s1)"
    using that by (simp add: Let_eval_def)
  show "find (map fst bind ! i) (bound_env (map fst bind) (length (cells s1)) env1)
        (s1\<lparr>cells := cells s1 @ map Some vals\<rparr>) = Some (vals ! i)"
    if "distinct (map fst bind) \<and> i < length bind \<and> length vals = length bind"
    using that find_bound [of "map fst bind" i "map Some vals" "cells s1" env1 s1] by simp
  show "eval P R (Suc n) (Letrec bind body) env s =
        (case letrec_loop (eval P R n) bind (bound_env (map fst bind) (length (cells s)) env)
                (s\<lparr>cells := cells s @ replicate (length bind) None\<rparr>) of
           (Inl er, new_env1, s2) \<Rightarrow> (Inl er, env, s2)
         | (Inr u, new_env1, s2) \<Rightarrow>
             (case eval P R n body new_env1 s2 of (r, new_env2, s3) \<Rightarrow> (r, env, s3)))"
    by (simp add: Letrec_eval_eq)
  show "find x (bound_env (map fst bind) (length (cells s)) env)
        (s\<lparr>cells := cells s @ replicate (length bind) None\<rparr>) = None"
    if "x \<in> set (map fst bind)"
    using find_placeholder [OF that, of "cells s" env s] by simp
  show "letrec_loop ev ((x, e) # rest) new_env s =
        (case ev e new_env s of
           (Inl er, new_env1, s1) \<Rightarrow> (Inl er, new_env1, s1)
         | (Inr val, new_env1, s1) \<Rightarrow> letrec_loop ev rest new_env1 (modify x (Some val) new_env1 s1))"
    by simp
  show "find (names ! i) (bound_env names base env) (modify (names ! i) (Some v) (bound_env names base env) s)
        = Some v"
    if "distinct names \<and> i < length names \<and> base + i < length (cells s)"
    using that modify_bound(1) by blast
  show "find (names ! j) (bound_env names base env) (modify (names ! i) (Some v) (bound_env names base env) s)
        = find (names ! j) (bound_env names base env) s"
    if "distinct names \<and> i < length names \<and> base + i < length (cells s)
        \<and> j < length names \<and> j \<noteq> i"
    using that modify_bound(2) by blast
  show "error_of (eval P R (Suc (Suc 0)) (Let_e [(''x'', Fixnum 1), (''y'', Var ''x'')] (Var ''y'')) []
        \<lparr>heap = [], cells = []\<rparr>) = (if P ''x'' = None then Some (RuntimeError ''Undefined variable: x'') else None)"
    by (simp add: Let_eval_def Var_eval_def find_def error_of_def extend_def)
qed


theorem Let_Letrec_spec_witness:
  "eval_rands (eval Map.empty Map.empty (Suc 0)) [Fixnum 1, Fixnum 2] [] \<lparr>heap = [], cells = []\<rparr>
     = (Inr [0, 1], [], \<lparr>heap = [IntegerV 1, IntegerV 2], cells = []\<rparr>)
   \<and> eval Map.empty Map.empty (Suc (Suc 0)) (Let_e [(''x'', Fixnum 1), (''y'', Fixnum 2)] (Var ''x''))
       [] \<lparr>heap = [], cells = []\<rparr>
     = (Inr 0, [], \<lparr>heap = [IntegerV 1, IntegerV 2], cells = [Some 0, Some 1]\<rparr>)
   \<and> find ''y'' (bound_env [''x'', ''y''] 0 [])
       \<lparr>heap = [IntegerV 1, IntegerV 2], cells = [Some 0, Some 1]\<rparr> = Some 1
   \<and> find ''odd?'' (bound_env [''even?'', ''odd?''] 0 []) \<lparr>heap = [], cells = [None, None]\<rparr> = None
   \<and> find ''odd?'' (bound_env [''even?'', ''odd?''] 0 [])
        (modify ''odd?'' (Some 7) (bound_env [''even?'', ''odd?''] 0 []) \<lparr>heap = [], cells = [None, None]\<rparr>)
       = Some 7
   \<and> find ''even?'' (bound_env [''even?'', ''odd?''] 0 [])
        (modify ''odd?'' (Some 7) (bound_env [''even?'', ''odd?''] 0 []) \<lparr>heap = [], cells = [None, None]\<rparr>)
       = None"
proof -
  let ?s0 = "\<lparr>heap = [], cells = []\<rparr>"
  let ?s1 = "\<lparr>heap = [IntegerV 1, IntegerV 2], cells = []\<rparr>"
  let ?bind = "[(''x'', Fixnum 1), (''y'', Fixnum 2)]"
  let ?c = "\<lparr>heap = [], cells = [None, None]\<rparr>"
  note spec = Let_Letrec_spec [where P = Map.empty and R = Map.empty and n = "Suc 0"
      and bind = ?bind and body = "Var ''x''" and env = "[]" and s = ?s0 and vals = "[0, 1]"
      and ?env1.0 = "[]" and ?s1.0 = ?s1 and i = 1]
  have r: "eval_rands (eval Map.empty Map.empty (Suc 0)) (map snd ?bind) [] ?s0 = (Inr [0, 1], [], ?s1)"
    by simp
  have d: "distinct (map fst ?bind) \<and> 1 < length ?bind \<and> length [0::nat, 1] = length ?bind"
    by simp
  have l: "eval Map.empty Map.empty (Suc (Suc 0)) (Let_e ?bind (Var ''x'')) [] ?s0 =
        (case eval Map.empty Map.empty (Suc 0) (Var ''x'') (bound_env (map fst ?bind) (length (cells ?s1)) [])
                (?s1\<lparr>cells := cells ?s1 @ map Some [0, 1]\<rparr>) of
           (r, new_env1, s3) \<Rightarrow> (r, [], s3))"
    using spec r by blast
  have f: "find (map fst ?bind ! 1) (bound_env (map fst ?bind) (length (cells ?s1)) [])
        (?s1\<lparr>cells := cells ?s1 @ map Some [0, 1]\<rparr>) = Some ([0, 1] ! 1)"
    using spec d by blast
  note rec = Let_Letrec_spec [where bind = "[(''even?'', True_e), (''odd?'', True_e)]"
      and x = "''odd?''" and env = "[]" and s = ?s0]
  have p: "find ''odd?'' (bound_env (map fst [(''even?'', True_e), (''odd?'', True_e)]) (length (cells ?s0)) [])
        (?s0\<lparr>cells := cells ?s0 @ replicate (length [(''even?'', True_e), (''odd?'', True_e)]) None\<rparr>) = None"
    using rec by simp
  note md = Let_Letrec_spec [where names = "[''even?'', ''odd?'']" and i = 1 and j = 0 and base = 0
      and s = ?c and env = "[]" and v = 7]
  have m1: "find ([''even?'', ''odd?''] ! 1) (bound_env [''even?'', ''odd?''] 0 [])
      (modify ([''even?'', ''odd?''] ! 1) (Some 7) (bound_env [''even?'', ''odd?''] 0 []) ?c) = Some 7"
    using md by simp
  have m2: "find ([''even?'', ''odd?''] ! 0) (bound_env [''even?'', ''odd?''] 0 [])
      (modify ([''even?'', ''odd?''] ! 1) (Some 7) (bound_env [''even?'', ''odd?''] 0 []) ?c)
      = find ([''even?'', ''odd?''] ! 0) (bound_env [''even?'', ''odd?''] 0 []) ?c"
    using md by simp
  have e: "eval Map.empty Map.empty (Suc 0) (Var ''x'') (bound_env [''x'', ''y''] 0 [])
       \<lparr>heap = [IntegerV 1, IntegerV 2], cells = [Some 0, Some 1]\<rparr>
     = (Inr 0, bound_env [''x'', ''y''] 0 [], \<lparr>heap = [IntegerV 1, IntegerV 2], cells = [Some 0, Some 1]\<rparr>)"
    by (simp add: Var_eval_def find_def bound_env_def)
  have q: "find ''even?'' (bound_env [''even?'', ''odd?''] 0 []) ?c = None"
    by (simp add: find_def bound_env_def)
  show ?thesis
    using r l f p m1 m2 e q by (simp del: eval.simps Expr_eval.simps)
qed

section \<open>Arity checks of the parser\<close>

lemma parse_list_length:
  "parse_list prs stxs = Inr es \<Longrightarrow> length es = length stxs"
  by (induction stxs arbitrary: es) (auto split: sum.splits)

lemma primitive_node_fixed:
  assumes "fixed_arity t = Some k"
  shows "length parameters \<noteq> k \<Longrightarrow> \<exists>name. primitive_node op t parameters = arity_error name"
    and "length parameters = k \<Longrightarrow> \<exists>e. primitive_node op t parameters = Inr e"
  using assms
  by (cases t; simp add: exactly2_def exactly1_def exactly0_def; blast)+

lemma primitive_node_any:
  assumes "any_arity t = Some node"
  shows "primitive_node op t parameters = Inr (node parameters)"
  using assms by (cases t) auto

lemma primitive_node_two_or_many:
  assumes "two_or_many t = Some (b, v)"
  shows "primitive_node op t parameters =
     (if length parameters = 2 then Inr (Binary b (parameters ! 0) (parameters ! 1))
      else Inr (Variadic v parameters))"
  using assms by (cases t) (auto simp: binary_or_variadic_def)

lemma parse_primitive:
  assumes "find op env s = None" and "P op = Some t"
    and "parse_list (\<lambda>stx. parse P R stx env s) args = Inr parameters"
  shows "parse P R (List (SymbolSyntax op # args)) env s = primitive_node op t parameters"
  using assms by (simp add: List_parse_def)


text \<open>
  C8. For a list whose head symbol is not bound in the environment and is a primitive of
  type \<open>t\<close>, with arguments that parse: a primitive of fixed arity (2 for modulo, expt,
  cons, set-car!, set-cdr!, eq?; 1 for car, cdr, not, the type predicates, display; 0 for
  void, exit) gives the error "Wrong number of arguments for ..." when the number of
  arguments differs and a node when it agrees; list, and, or build their node for any
  number of arguments; an arithmetic or comparison primitive builds the binary node on
  exactly two arguments and the variadic node otherwise.
\<close>

theorem parse_primitive_arity:
  assumes "find op env s = None" and "P op = Some t"
    and "parse_list (\<lambda>stx. parse P R stx env s) args = Inr parameters"
  shows "(fixed_arity t = Some k \<and> length args \<noteq> k \<longrightarrow>
        (\<exists>name. parse P R (List (SymbolSyntax op # args)) env s
           = Inl (RuntimeError (''Wrong number of arguments for '' @ name))))
    \<and> (fixed_arity t = Some k \<and> length args = k \<longrightarrow>
        (\<exists>e. parse P R (List (SymbolSyntax op # args)) env s = Inr e))
    \<and> (any_arity t = Some node \<longrightarrow>
        parse P R (List (SymbolSyntax op # args)) env s = Inr (node parameters))
    \<and> (two_or_many t = Some (b, v) \<longrightarrow>
        parse P R (List (SymbolSyntax op # args)) env s =
          (if length args = 2 then Inr (Binary b (parameters ! 0) (parameters ! 1))
           else Inr (Variadic v parameters)))"
proof -
  have p: "parse P R (List (SymbolSyntax op # args)) env s = primitive_node op t parameters"
    using assms by (rule parse_primitive)
  have n: "length parameters = length args"
    using assms(3) by (rule parse_list_length)
  show ?thesis
    unfolding p
    using primitive_node_fixed [of t k parameters op] primitive_node_any [of t node op parameters]
      primitive_node_two_or_many [of t b v op parameters] n
    by (auto simp: arity_error_def)
qed

theorem parse_primitive_arity_witness:
  "find ''modulo'' [] \<lparr>heap = [], cells = []\<rparr> = None
   \<and> [''modulo'' \<mapsto> E_MODULO] ''modulo'' = Some E_MODULO
   \<and> parse_list (\<lambda>stx. parse [''modulo'' \<mapsto> E_MODULO] Map.empty stx [] \<lparr>heap = [], cells = []\<rparr>)
        [Number 7] = Inr [Fixnum 7]
   \<and> fixed_arity E_MODULO = Some 2 \<and> length [Number 7] \<noteq> 2
   \<and> (\<exists>name. parse [''modulo'' \<mapsto> E_MODULO] Map.empty (List [SymbolSyntax ''modulo'', Number 7]) []
          \<lparr>heap = [], cells = []\<rparr>
        = Inl (RuntimeError (''Wrong number of arguments for '' @ name)))"
proof -
  have a: "find ''modulo'' [] \<lparr>heap = [], cells = []\<rparr> = None"
    by (simp add: find_def)
  have b: "[''modulo'' \<mapsto> E_MODULO] ''modulo'' = Some E_MODULO"
    by simp
  have c: "parse_list (\<lambda>stx. parse [''modulo'' \<mapsto> E_MODULO] Map.empty stx [] \<lparr>heap = [], cells = []\<rparr>)
        [Number 7] = Inr [Fixnum 7]"
    by simp
  have d: "fixed_arity E_MODULO = Some 2 \<and> length [Number 7] \<noteq> 2"
    by simp
  show ?thesis
    using parse_primitive_arity [OF a b c, of 2] a b c d by blast
qed

section \<open>Normalized rationals\<close>

lemma scalar_simps [simp]:
  "scalar (IntegerV n)" "scalar (BooleanV b)" "scalar (StringV x)" "scalar (SymbolV x)"
  "scalar NullV" "scalar VoidV" "scalar TerminateV"
  "scalar (RationalV p q) \<longleftrightarrow> 1 < q \<and> gcd \<bar>p\<bar> q = 1"
  "\<not> scalar (PairV a d)" "\<not> scalar (ProcedureV ps body cenv)"
  by (simp_all add: scalar_def)

lemma grows_refl [simp]: "grows s s"
  by (simp add: grows_def)
































lemma grows_alloc [simp]: "grows s (s\<lparr>heap := heap s @ [ob]\<rparr>)"
  by (simp add: grows_def)













lemma in_heap_grows: "in_heap (length (heap s)) a \<Longrightarrow> grows s s1 \<Longrightarrow> in_heap (length (heap s1)) a"
  by (simp add: in_heap_def grows_def)




























lemma finishes_simp [simp]: "finishes (x, env, s) \<longleftrightarrow> x \<noteq> Inl OutOfFuel"
  by (simp add: finishes_def)

lemma finishes_map [simp]: "finishes (case r of (x, env1, s1) \<Rightarrow> (x, env2, s1)) \<longleftrightarrow> finishes r"
  by (cases r) simp






























end
